theory Spec2Isabelle
  imports Main "HOL-Library.Sublist"
begin

section \<open>The database table proxy of \<^verbatim>\<open>database-table-proxy.ts\<close>\<close>

text \<open>
  The proxy (the spec's Strategy Selector) routes every table operation to a target table
  whose class depends on a configuration that is read again at every decision. Objects
  live in a heap and are named by their address, so that identity (\<^verbatim>\<open>===\<close>), freshness
  and the classes of objects can be stated. Calls that leave the file (the lifecycle of a
  target, the table operations of a target, the configuration constants) are parameters.
  Every asynchronous function is run from its call to the point where it settles or is
  suspended on the handle; \<^verbatim>\<open>updateTarget\<close> is given a second time, cut at its
  \<^verbatim>\<open>await\<close>s, to speak about what happens in between.
\<close>

subsection \<open>Configuration\<close>

text \<open>\<^verbatim>\<open>enum CoreDatabaseCachingStrategy\<close>; the member \<^verbatim>\<open>None\<close> is written \<open>None'\<close>.\<close>

datatype CoreDatabaseCachingStrategy = Eager | Lazy | None'

text \<open>\<^verbatim>\<open>interface CoreDatabaseConfiguration\<close>.\<close>

record CoreDatabaseConfiguration =
  cachingStrategy :: CoreDatabaseCachingStrategy
  debug :: bool

text \<open>
  \<^verbatim>\<open>Partial<CoreDatabaseConfiguration>\<close>: each key is present or absent. An absent
  object (\<^verbatim>\<open>undefined\<close>) spreads like the object with no key.
\<close>

record partial_configuration =
  cachingStrategy_key :: "CoreDatabaseCachingStrategy option"
  debug_key :: "bool option"

definition no_keys :: partial_configuration where
  "no_keys = \<lparr>cachingStrategy_key = None, debug_key = None\<rparr>"

text \<open>The object spread \<^verbatim>\<open>{ ...base, ...over }\<close>: a key of \<open>over\<close> wins.\<close>

definition spread :: "CoreDatabaseConfiguration \<Rightarrow> partial_configuration \<Rightarrow> CoreDatabaseConfiguration" where
  "spread base over =
     \<lparr>cachingStrategy = (case cachingStrategy_key over of Some s \<Rightarrow> s | None \<Rightarrow> cachingStrategy base),
      debug = (case debug_key over of Some d \<Rightarrow> d | None \<Rightarrow> debug base)\<rparr>"

definition getConfigDefaults :: CoreDatabaseConfiguration where
  "getConfigDefaults = \<lparr>cachingStrategy = None', debug = False\<rparr>"

subsection \<open>Table objects\<close>

text \<open>The four table classes the file names; \<^verbatim>\<open>object.constructor\<close> is one of them.\<close>

datatype table_constructor =
  CoreEagerDatabaseTable | CoreLazyDatabaseTable | CoreDatabaseTable | CoreDebugDatabaseTable

text \<open>The field \<^verbatim>\<open>targetConstructors\<close>.\<close>

fun targetConstructors :: "CoreDatabaseCachingStrategy \<Rightarrow> table_constructor" where
  "targetConstructors Eager = CoreEagerDatabaseTable"
| "targetConstructors Lazy = CoreLazyDatabaseTable"
| "targetConstructors None' = CoreDatabaseTable"

text \<open>
  An object of the heap: a table built by \<^verbatim>\<open>new DatabaseTable(database, tableName,
  primaryKeyColumns)\<close>, or a debug table built by \<^verbatim>\<open>new CoreDebugDatabaseTable(table)\<close>,
  which keeps the address of the table it wraps.
\<close>

datatype table_object =
  Table table_constructor nat string "string list"
| DebugTable nat

type_synonym heap = "table_object list"

definition deref :: "heap \<Rightarrow> nat \<Rightarrow> table_object option" where
  "deref h a = (if a < length h then Some (h ! a) else None)"

fun constructor_of :: "table_object \<Rightarrow> table_constructor" where
  "constructor_of (Table c db name keys) = c"
| "constructor_of (DebugTable t) = CoreDebugDatabaseTable"

subsection \<open>What the file calls and does not define\<close>

text \<open>A rejection of a promise (a thrown value).\<close>

datatype rejection = Rejection string

text \<open>
  The values read from outside at run time: \<^verbatim>\<open>CoreConstants.CONFIG.databaseOptimizations\<close>,
  \<^verbatim>\<open>CoreConstants.CONFIG.databaseTableOptimizations\<close>, and how \<^verbatim>\<open>initialize()\<close> and
  \<^verbatim>\<open>destroy()\<close> of the table at an address settle (\<open>None\<close>: resolved).
\<close>

record environment =
  databaseOptimizations :: partial_configuration
  databaseTableOptimizations :: "string \<Rightarrow> partial_configuration option"
  initialize_settles :: "nat \<Rightarrow> rejection option"
  destroy_settles :: "nat \<Rightarrow> rejection option"

text \<open>
  A table operation as it is invoked: the method and its arguments, \<open>'a\<close> being the
  values passed (records, conditions, options, keys, reducers); an optional parameter
  that is left out is \<open>None\<close>.
\<close>

datatype 'a invocation =
  GetMany "'a option" "'a option"
| GetManyWhere 'a
| GetOne "'a option" "'a option"
| GetOneByPrimaryKey 'a
| Reduce 'a "'a option"
| HasAny "'a option"
| Count "'a option"
| Insert 'a
| Update 'a "'a option"
| UpdateWhere 'a 'a
| Delete "'a option"
| DeleteByPrimaryKey 'a

text \<open>
  The tables' own behaviour: what the table at an address answers to an invocation in a
  state \<open>'s\<close> of the storage and the caches, a rejection or a value, and the state it
  leaves.
\<close>

type_synonym ('a, 's, 'v) tables = "nat \<Rightarrow> 'a invocation \<Rightarrow> 's \<Rightarrow> (rejection + 'v) \<times> 's"

subsection \<open>State\<close>

text \<open>
  Who waits on the handle while it holds no instance: a table operation, or
  \<^verbatim>\<open>shouldUpdateTarget\<close> with the configuration it has already read.
\<close>

datatype 'a awaiter = MethodCall "'a invocation" | ShouldUpdate CoreDatabaseConfiguration

text \<open>
  What has happened, in order. A call of \<^verbatim>\<open>destroy()\<close> or \<^verbatim>\<open>initialize()\<close> on a table is
  recorded when it settles, with its rejection if it has one.
\<close>

datatype 'a event =
  Constructed nat table_constructor
| DestroySettled nat "rejection option"
| InitializeSettled nat "rejection option"
| InstanceReset
| InstanceSet nat
| Forwarded nat "'a invocation"
| Subscribed nat
| Unsubscribed nat

text \<open>
  The fields of the proxy (\<open>database\<close>, \<open>tableName\<close>, \<open>primaryKeyColumns\<close>, \<open>config\<close>,
  \<open>environmentObserver\<close>; \<open>target\<close> is the handle, with the awaiters it has queued and
  those it has resumed with an instance), the heap, the observers of
  \<^verbatim>\<open>CoreConfigProvider.ENVIRONMENT_UPDATED\<close> this proxy has registered, and the events so far.
\<close>

record 'a state =
  database :: nat
  tableName :: string
  primaryKeyColumns :: "string list"
  config :: CoreDatabaseConfiguration
  target :: "nat option"
  waiting :: "'a awaiter list"
  resumed :: "('a awaiter \<times> nat) list"
  environmentObserver :: "nat option"
  observers :: "nat list"
  observer_count :: nat
  heap :: heap
  events :: "'a event list"

definition emit :: "'a event \<Rightarrow> 'a state \<Rightarrow> 'a state" where
  "emit e s = s\<lparr>events := events s @ [e]\<rparr>"

definition allocate :: "table_object \<Rightarrow> 'a state \<Rightarrow> nat \<times> 'a state" where
  "allocate obj s =
     (length (heap s),
      emit (Constructed (length (heap s)) (constructor_of obj)) (s\<lparr>heap := heap s @ [obj]\<rparr>))"

text \<open>
  The constructor of the proxy: it passes \<open>database\<close>, \<open>tableName\<close> and
  \<open>primaryKeyColumns\<close> to the constructor of the base class and spreads the given
  configuration over the defaults. The default of the primary key is
  modelled from the spec: the constructor of the base class \<^verbatim>\<open>CoreDatabaseTable\<close> is
  not in the file; the spec gives a single column \<open>id\<close> when no columns are given.
\<close>

definition constructor :: "partial_configuration \<Rightarrow> nat \<Rightarrow> string \<Rightarrow> string list option \<Rightarrow> 'a state" where
  "constructor cfg db name keys =
     \<lparr>database = db, tableName = name,
      primaryKeyColumns = (case keys of None \<Rightarrow> [''id''] | Some ks \<Rightarrow> ks),
      config = spread getConfigDefaults cfg,
      target = None, waiting = [], resumed = [],
      environmentObserver = None, observers = [], observer_count = 0,
      heap = [], events = []\<rparr>"

subsection \<open>The handle\<close>

text \<open>
  \<^verbatim>\<open>asyncInstance\<close> of \<^verbatim>\<open>@/core/utils/async-instance\<close> is not in the file. The spec
  describes it: a deferred instance that gets and sets an underlying instance; an awaiter
  that comes while the instance is absent queues until \<^verbatim>\<open>setInstance\<close> resolves it; a
  single slot, empty with pending waiters or full with a value; one set resolves all the
  waiters of the slot. The field \<open>target\<close> of the state is the getter \<^verbatim>\<open>instance\<close>.
\<close>

text \<open>
  Modelled from the spec: \<^verbatim>\<open>resetInstance\<close> of the missing \<^verbatim>\<open>asyncInstance\<close>; it empties
  the slot.
\<close>

definition resetInstance :: "'a state \<Rightarrow> 'a state" where
  "resetInstance s = emit InstanceReset (s\<lparr>target := None\<rparr>)"

text \<open>
  Modelled from the spec: \<^verbatim>\<open>setInstance\<close> of the missing \<^verbatim>\<open>asyncInstance\<close>; it fills the
  slot and resolves every awaiter of the queue with the instance it sets.
\<close>

definition setInstance :: "nat \<Rightarrow> 'a state \<Rightarrow> 'a state" where
  "setInstance t s =
     emit (InstanceSet t)
       (s\<lparr>target := Some t, resumed := resumed s @ map (\<lambda>w. (w, t)) (waiting s), waiting := []\<rparr>)"

text \<open>The answer a caller of the proxy has: the settled promise, or a call left in the queue.\<close>

datatype 'v answer = Settled "rejection + 'v" | Queued

text \<open>
  Modelled from the spec: a method called on the missing \<^verbatim>\<open>asyncInstance\<close>
  (\<^verbatim>\<open>this.target.method(...args)\<close>). With an instance in the slot it is the method of
  the instance with the same arguments; without, the call waits in the queue.
\<close>

definition target_call :: "('a, 's, 'v) tables \<Rightarrow> 'a invocation \<Rightarrow> 'a state \<Rightarrow> 's \<Rightarrow> 'v answer \<times> 'a state \<times> 's" where
  "target_call tables call s db =
     (case target s of
        Some t \<Rightarrow> (Settled (fst (tables t call db)), emit (Forwarded t call) s, snd (tables t call db))
      | None \<Rightarrow> (Queued, s\<lparr>waiting := waiting s @ [MethodCall call]\<rparr>, db))"

subsection \<open>The methods of the proxy\<close>

definition getMany :: "('a, 's, 'v) tables \<Rightarrow> 'a option \<Rightarrow> 'a option \<Rightarrow> 'a state \<Rightarrow> 's \<Rightarrow> 'v answer \<times> 'a state \<times> 's" where
  "getMany tables conditions options = target_call tables (GetMany conditions options)"

definition getManyWhere :: "('a, 's, 'v) tables \<Rightarrow> 'a \<Rightarrow> 'a state \<Rightarrow> 's \<Rightarrow> 'v answer \<times> 'a state \<times> 's" where
  "getManyWhere tables conditions = target_call tables (GetManyWhere conditions)"

definition getOne :: "('a, 's, 'v) tables \<Rightarrow> 'a option \<Rightarrow> 'a option \<Rightarrow> 'a state \<Rightarrow> 's \<Rightarrow> 'v answer \<times> 'a state \<times> 's" where
  "getOne tables conditions options = target_call tables (GetOne conditions options)"

definition getOneByPrimaryKey :: "('a, 's, 'v) tables \<Rightarrow> 'a \<Rightarrow> 'a state \<Rightarrow> 's \<Rightarrow> 'v answer \<times> 'a state \<times> 's" where
  "getOneByPrimaryKey tables primaryKey = target_call tables (GetOneByPrimaryKey primaryKey)"

definition reduce :: "('a, 's, 'v) tables \<Rightarrow> 'a \<Rightarrow> 'a option \<Rightarrow> 'a state \<Rightarrow> 's \<Rightarrow> 'v answer \<times> 'a state \<times> 's" where
  "reduce tables reducer conditions = target_call tables (Reduce reducer conditions)"

definition hasAny :: "('a, 's, 'v) tables \<Rightarrow> 'a option \<Rightarrow> 'a state \<Rightarrow> 's \<Rightarrow> 'v answer \<times> 'a state \<times> 's" where
  "hasAny tables conditions = target_call tables (HasAny conditions)"

definition count :: "('a, 's, 'v) tables \<Rightarrow> 'a option \<Rightarrow> 'a state \<Rightarrow> 's \<Rightarrow> 'v answer \<times> 'a state \<times> 's" where
  "count tables conditions = target_call tables (Count conditions)"

definition insert' :: "('a, 's, 'v) tables \<Rightarrow> 'a \<Rightarrow> 'a state \<Rightarrow> 's \<Rightarrow> 'v answer \<times> 'a state \<times> 's" where
  "insert' tables record = target_call tables (Insert record)"

definition update :: "('a, 's, 'v) tables \<Rightarrow> 'a \<Rightarrow> 'a option \<Rightarrow> 'a state \<Rightarrow> 's \<Rightarrow> 'v answer \<times> 'a state \<times> 's" where
  "update tables updates conditions = target_call tables (Update updates conditions)"

definition updateWhere :: "('a, 's, 'v) tables \<Rightarrow> 'a \<Rightarrow> 'a \<Rightarrow> 'a state \<Rightarrow> 's \<Rightarrow> 'v answer \<times> 'a state \<times> 's" where
  "updateWhere tables updates conditions = target_call tables (UpdateWhere updates conditions)"

definition delete :: "('a, 's, 'v) tables \<Rightarrow> 'a option \<Rightarrow> 'a state \<Rightarrow> 's \<Rightarrow> 'v answer \<times> 'a state \<times> 's" where
  "delete tables conditions = target_call tables (Delete conditions)"

definition deleteByPrimaryKey :: "('a, 's, 'v) tables \<Rightarrow> 'a \<Rightarrow> 'a state \<Rightarrow> 's \<Rightarrow> 'v answer \<times> 'a state \<times> 's" where
  "deleteByPrimaryKey tables primaryKey = target_call tables (DeleteByPrimaryKey primaryKey)"

text \<open>
  \<^verbatim>\<open>getRuntimeConfig\<close>: the configuration of the proxy, then the global optimizations, then
  those of this table. (\<^verbatim>\<open>CoreConfig.ready()\<close> is taken to have resolved.)
\<close>

definition getRuntimeConfig :: "environment \<Rightarrow> 'a state \<Rightarrow> CoreDatabaseConfiguration" where
  "getRuntimeConfig env s =
     spread (spread (config s) (databaseOptimizations env))
       (case databaseTableOptimizations env (tableName s) of None \<Rightarrow> no_keys | Some over \<Rightarrow> over)"

definition createTable :: "CoreDatabaseCachingStrategy \<Rightarrow> 'a state \<Rightarrow> nat \<times> 'a state" where
  "createTable strategy s =
     allocate (Table (targetConstructors strategy) (database s) (tableName s) (primaryKeyColumns s)) s"

definition createTarget :: "environment \<Rightarrow> 'a state \<Rightarrow> nat \<times> 'a state" where
  "createTarget env s =
     (let cfg = getRuntimeConfig env s;
          (table, s1) = createTable (cachingStrategy cfg) s
      in if debug cfg then allocate (DebugTable table) s1 else (table, s1))"

text \<open>
  Modelled from the spec: \<^verbatim>\<open>getTarget()\<close> of the missing \<^verbatim>\<open>CoreDebugDatabaseTable\<close>
  gives the table the debug table wraps. The definition is the constant
  \<^verbatim>\<open>originalTarget\<close> of \<^verbatim>\<open>shouldUpdateTarget\<close>: the wrapped table of a debug table, the
  target itself otherwise.
\<close>

definition originalTarget :: "heap \<Rightarrow> nat \<Rightarrow> nat" where
  "originalTarget h t = (case deref h t of Some (DebugTable inner) \<Rightarrow> inner | _ \<Rightarrow> t)"

text \<open>
  The value \<^verbatim>\<open>shouldUpdateTarget\<close> returns once it has the configuration and the
  instance. A missing object has no constructor, which differs from every constructor of
  the registry (\<^verbatim>\<open>originalTarget?.constructor\<close>).
\<close>

definition update_wanted :: "heap \<Rightarrow> CoreDatabaseConfiguration \<Rightarrow> nat \<Rightarrow> bool" where
  "update_wanted h cfg t =
     ((debug cfg \<and> t = originalTarget h t)
      \<or> map_option constructor_of (deref h (originalTarget h t))
          \<noteq> Some (targetConstructors (cachingStrategy cfg)))"

text \<open>
  \<^verbatim>\<open>shouldUpdateTarget\<close>: the configuration is read first, then the instance is awaited;
  with no instance the function waits on the handle and has no answer yet.
\<close>

definition shouldUpdateTarget :: "environment \<Rightarrow> 'a state \<Rightarrow> bool option \<times> 'a state" where
  "shouldUpdateTarget env s =
     (let cfg = getRuntimeConfig env s in
      case target s of
        None \<Rightarrow> (None, s\<lparr>waiting := waiting s @ [ShouldUpdate cfg]\<rparr>)
      | Some t \<Rightarrow> (Some (update_wanted (heap s) cfg t), s))"

text \<open>\<^verbatim>\<open>updateTarget\<close>, from its call to its settlement.\<close>

definition updateTarget :: "environment \<Rightarrow> 'a state \<Rightarrow> (rejection + unit) \<times> 'a state" where
  "updateTarget env s =
     (let oldTarget = target s;
          (newTarget, s1) = createTarget env s
      in case (case oldTarget of
                 None \<Rightarrow> Inr s1
               | Some old \<Rightarrow>
                   (case destroy_settles env old of
                      Some e \<Rightarrow> Inl (e, emit (DestroySettled old (Some e)) s1)
                    | None \<Rightarrow> Inr (resetInstance (emit (DestroySettled old None) s1)))) of
           Inl (e, s2) \<Rightarrow> (Inl e, s2)
         | Inr s2 \<Rightarrow>
             (case initialize_settles env newTarget of
                Some e \<Rightarrow> (Inl e, emit (InitializeSettled newTarget (Some e)) s2)
              | None \<Rightarrow> (Inr (), setInstance newTarget (emit (InitializeSettled newTarget None) s2))))"

text \<open>
  The callback \<^verbatim>\<open>initialize\<close> registers, together with the update it starts. The
  callback does not await \<^verbatim>\<open>updateTarget\<close>: a rejection of the update reaches nobody,
  and the callback itself has returned while the update is still under way. The
  definition runs the update to its settlement, so it gives the state once the
  notification has been handled and its update has run, with nothing else in between; an
  update that is under way while other things happen is \<open>updateTarget_step\<close> below.
\<close>

definition environment_callback :: "environment \<Rightarrow> 'a state \<Rightarrow> 'a state" where
  "environment_callback env s =
     (case shouldUpdateTarget env s of
        (None, s1) \<Rightarrow> s1
      | (Some False, s1) \<Rightarrow> s1
      | (Some True, s1) \<Rightarrow> snd (updateTarget env s1))"

text \<open>
  \<^verbatim>\<open>CoreEvents\<close> of \<^verbatim>\<open>@singletons/events\<close> is not in the file. The spec describes it: one
  can subscribe to the topic; a notification has no payload; the handle of a subscription
  can unsubscribe.
\<close>

text \<open>
  Modelled from the spec: \<^verbatim>\<open>CoreEvents.on\<close> of the missing \<^verbatim>\<open>CoreEvents\<close>, for the
  callback of this proxy; it registers a new observer and returns it.
\<close>

definition subscribe :: "'a state \<Rightarrow> nat \<times> 'a state" where
  "subscribe s =
     (observer_count s,
      emit (Subscribed (observer_count s))
        (s\<lparr>observers := observers s @ [observer_count s], observer_count := Suc (observer_count s)\<rparr>))"

text \<open>Modelled from the spec: \<^verbatim>\<open>off()\<close> of an observer of the missing \<^verbatim>\<open>CoreEvents\<close>.\<close>

definition off :: "nat \<Rightarrow> 'a state \<Rightarrow> 'a state" where
  "off ob s = emit (Unsubscribed ob) (s\<lparr>observers := removeAll ob (observers s)\<rparr>)"

text \<open>
  Modelled from the spec: a notification of the missing \<^verbatim>\<open>CoreEvents\<close> on the topic
  \<^verbatim>\<open>ENVIRONMENT_UPDATED\<close>. It runs the callback once for every observer the proxy has
  registered. The definition runs them one after the other, each with the update it
  starts. This is what the code does where the proxy has one observer, and where no
  callback starts an update (each waits on the handle, or decides against). Where several
  observers are registered and an update is wanted, the callbacks of the code all decide
  on the old instance before any update has cleared the handle, and their updates
  overlap: what is proved below of a notification that starts an update is stated for a
  proxy with one observer.
\<close>

definition environment_updated :: "environment \<Rightarrow> 'a state \<Rightarrow> 'a state" where
  "environment_updated env s = foldl (\<lambda>s1 ob. environment_callback env s1) s (observers s)"

text \<open>
  \<^verbatim>\<open>initialize\<close> of the proxy: the observer is registered and kept in
  \<open>environmentObserver\<close>, then \<^verbatim>\<open>updateTarget\<close> is awaited. \<^verbatim>\<open>destroy\<close> of the proxy:
  \<^verbatim>\<open>this.environmentObserver?.off()\<close>.
\<close>

definition initialize :: "environment \<Rightarrow> 'a state \<Rightarrow> (rejection + unit) \<times> 'a state" where
  "initialize env s =
     (let (ob, s1) = subscribe s
      in updateTarget env (s1\<lparr>environmentObserver := Some ob\<rparr>))"

definition destroy :: "'a state \<Rightarrow> (rejection + unit) \<times> 'a state" where
  "destroy s =
     (case environmentObserver s of
        None \<Rightarrow> (Inr (), s)
      | Some ob \<Rightarrow> (Inr (), off ob s))"

text \<open>
  An awaiter the handle has resumed goes on with the instance it was given: a table
  operation calls the method of that instance, \<^verbatim>\<open>shouldUpdateTarget\<close> returns to the
  callback, which decides with the configuration read before the wait.
\<close>

definition resume :: "('a, 's, 'v) tables \<Rightarrow> environment \<Rightarrow> 'a state \<Rightarrow> 's \<Rightarrow> (rejection + 'v) option \<times> 'a state \<times> 's" where
  "resume tables env s db =
     (case resumed s of
        [] \<Rightarrow> (None, s, db)
      | (MethodCall call, t) # rest \<Rightarrow>
          (Some (fst (tables t call db)), emit (Forwarded t call) (s\<lparr>resumed := rest\<rparr>), snd (tables t call db))
      | (ShouldUpdate cfg, t) # rest \<Rightarrow>
          (None,
           (if update_wanted (heap s) cfg t then snd (updateTarget env (s\<lparr>resumed := rest\<rparr>))
            else s\<lparr>resumed := rest\<rparr>),
           db))"

subsection \<open>\<^verbatim>\<open>updateTarget\<close> cut at its awaits\<close>

text \<open>
  Where an execution of \<^verbatim>\<open>updateTarget\<close> stands: entered, with nothing done; the old
  instance read and \<^verbatim>\<open>createTarget()\<close> awaited; \<^verbatim>\<open>oldTarget.destroy()\<close> awaited (old and
  new target); \<^verbatim>\<open>newTarget.initialize()\<close> awaited; returned.
\<close>

datatype updateTarget_phase =
  Entered
| AwaitingCreateTarget "nat option"
| AwaitingDestroy nat nat
| AwaitingInitialize nat
| Returned "rejection + unit"

text \<open>One stretch of \<^verbatim>\<open>updateTarget\<close> between two awaits, in the environment of that moment.\<close>

fun updateTarget_step :: "environment \<Rightarrow> updateTarget_phase \<Rightarrow> 'a state \<Rightarrow> updateTarget_phase \<times> 'a state" where
  "updateTarget_step env Entered s = (AwaitingCreateTarget (target s), s)"
| "updateTarget_step env (AwaitingCreateTarget oldTarget) s =
     (let (newTarget, s1) = createTarget env s
      in case oldTarget of
           None \<Rightarrow> (AwaitingInitialize newTarget, s1)
         | Some old \<Rightarrow> (AwaitingDestroy old newTarget, s1))"
| "updateTarget_step env (AwaitingDestroy old newTarget) s =
     (case destroy_settles env old of
        Some e \<Rightarrow> (Returned (Inl e), emit (DestroySettled old (Some e)) s)
      | None \<Rightarrow> (AwaitingInitialize newTarget, resetInstance (emit (DestroySettled old None) s)))"
| "updateTarget_step env (AwaitingInitialize newTarget) s =
     (case initialize_settles env newTarget of
        Some e \<Rightarrow> (Returned (Inl e), emit (InitializeSettled newTarget (Some e)) s)
      | None \<Rightarrow> (Returned (Inr ()), setInstance newTarget (emit (InitializeSettled newTarget None) s)))"
| "updateTarget_step env (Returned r) s = (Returned r, s)"

text \<open>
  What can happen while an execution of \<^verbatim>\<open>updateTarget\<close> is under way: the execution
  goes on to its next await, a caller invokes a table operation on the proxy, an awaiter
  the handle has resumed goes on, the environment is updated. Only the one execution is
  cut at its awaits: an update started by a callback in between runs at once, so these
  histories have at most one update under way at a time.
\<close>

datatype 'a action =
  Advance environment
| Issue "'a invocation"
| Resume environment
| Notify environment

fun perform :: "('a, 's, 'v) tables \<Rightarrow> updateTarget_phase \<times> 'a state \<times> 's \<Rightarrow> 'a action \<Rightarrow> updateTarget_phase \<times> 'a state \<times> 's" where
  "perform tables (ph, s, db) (Advance env) =
     (fst (updateTarget_step env ph s), snd (updateTarget_step env ph s), db)"
| "perform tables (ph, s, db) (Issue call) =
     (ph, fst (snd (target_call tables call s db)), snd (snd (target_call tables call s db)))"
| "perform tables (ph, s, db) (Resume env) =
     (ph, fst (snd (resume tables env s db)), snd (snd (resume tables env s db)))"
| "perform tables (ph, s, db) (Notify env) = (ph, environment_updated env s, db)"

definition run :: "('a, 's, 'v) tables \<Rightarrow> 'a action list \<Rightarrow> updateTarget_phase \<times> 'a state \<times> 's \<Rightarrow> updateTarget_phase \<times> 'a state \<times> 's" where
  "run tables acts c = foldl (perform tables) c acts"

subsection \<open>Reading the events\<close>

text \<open>
  Whether an event may follow the events before it (latest first): the handle is
  cleared right after a \<^verbatim>\<open>destroy()\<close> has resolved, an instance is set right after its
  own \<^verbatim>\<open>initialize()\<close> has resolved, and a table operation is forwarded to a table whose
  \<^verbatim>\<open>initialize()\<close> has resolved.
\<close>

fun admissible :: "'a event \<Rightarrow> 'a event list \<Rightarrow> bool" where
  "admissible InstanceReset before = (case before of DestroySettled old None # _ \<Rightarrow> True | _ \<Rightarrow> False)"
| "admissible (InstanceSet t) before = (case before of InitializeSettled new None # _ \<Rightarrow> new = t | _ \<Rightarrow> False)"
| "admissible (Forwarded t call) before = (InitializeSettled t None \<in> set before)"
| "admissible e before = True"

fun protocol_latest_first :: "'a event list \<Rightarrow> bool" where
  "protocol_latest_first [] = True"
| "protocol_latest_first (e # before) = (admissible e before \<and> protocol_latest_first before)"

definition protocol :: "'a event list \<Rightarrow> bool" where
  "protocol es = protocol_latest_first (rev es)"

text \<open>
  A state whose events keep the protocol and in which the instance of the handle, and
  every instance an awaiter has been resumed with, has been initialized.
\<close>

definition sound :: "'a state \<Rightarrow> bool" where
  "sound s =
     (protocol (events s)
      \<and> list_all (\<lambda>t. InitializeSettled t None \<in> set (events s))
          ((case target s of None \<Rightarrow> [] | Some t \<Rightarrow> [t]) @ map snd (resumed s)))"

text \<open>
  The target an update builds from a configuration: a table of the constructor the
  registry has for the strategy, inside a debug table exactly when debug is wanted.
\<close>

definition built_from :: "heap \<Rightarrow> CoreDatabaseConfiguration \<Rightarrow> nat \<Rightarrow> bool" where
  "built_from h cfg t =
     (if debug cfg
      then (case deref h t of
              Some (DebugTable inner) \<Rightarrow>
                map_option constructor_of (deref h inner) = Some (targetConstructors (cachingStrategy cfg))
            | _ \<Rightarrow> False)
      else map_option constructor_of (deref h t) = Some (targetConstructors (cachingStrategy cfg)))"

text \<open>
  How far an execution of \<^verbatim>\<open>updateTarget\<close> that found the instance \<open>old\<close> and builds the
  target \<open>new\<close> has come, read from its phase and from the events since it was entered,
  whatever else has happened in between: while \<^verbatim>\<open>newTarget.initialize()\<close> is awaited,
  \<^verbatim>\<open>destroy()\<close> of \<open>old\<close> has resolved and the handle has been cleared after that; when
  the execution has resolved, \<^verbatim>\<open>initialize()\<close> of \<open>new\<close> has resolved after that, and
  \<open>new\<close> has been set after that.
\<close>

fun progress :: "nat \<Rightarrow> nat \<Rightarrow> updateTarget_phase \<Rightarrow> 'a event list \<Rightarrow> bool" where
  "progress old new Entered es = True"
| "progress old new (AwaitingCreateTarget oldTarget) es = (oldTarget = Some old)"
| "progress old new (AwaitingDestroy oldTarget newTarget) es = (oldTarget = old \<and> newTarget = new)"
| "progress old new (AwaitingInitialize newTarget) es =
     (newTarget = new \<and> subseq [DestroySettled old None, InstanceReset] es)"
| "progress old new (Returned (Inl e)) es = True"
| "progress old new (Returned (Inr u)) es =
     subseq [DestroySettled old None, InstanceReset, InitializeSettled new None, InstanceSet new] es"

text \<open>Resumed awaiters that are all table operations: no \<^verbatim>\<open>shouldUpdateTarget\<close> among them.\<close>

definition calls_only :: "('a awaiter \<times> nat) list \<Rightarrow> bool" where
  "calls_only rs = list_all (\<lambda>(w, t). case w of MethodCall call \<Rightarrow> True | ShouldUpdate cfg \<Rightarrow> False) rs"

text \<open>
  A table operation that is held by the handle: it is in the queue, or it has been
  resumed with an instance and has not gone on yet.
\<close>

definition held :: "'a invocation \<Rightarrow> 'a state \<Rightarrow> bool" where
  "held call s = (MethodCall call \<in> set (waiting s) \<or> MethodCall call \<in> fst ` set (resumed s))"

text \<open>
  A proxy at rest: the observers it has registered are at most the one it holds, no
  resumed \<^verbatim>\<open>shouldUpdateTarget\<close> is left to go on, and nobody waits on a handle that has
  an instance.
\<close>

definition at_rest :: "'a state \<Rightarrow> bool" where
  "at_rest s =
     (set (observers s) \<subseteq> set_option (environmentObserver s)
      \<and> calls_only (resumed s)
      \<and> (target s = None \<or> waiting s = []))"

subsection \<open>Scenarios\<close>

text \<open>
  An environment whose global optimizations give both keys, with no optimizations for
  single tables, and in which every \<^verbatim>\<open>initialize()\<close> and \<^verbatim>\<open>destroy()\<close> of a table resolves.
\<close>

definition optimizations :: "CoreDatabaseCachingStrategy \<Rightarrow> bool \<Rightarrow> environment" where
  "optimizations strategy dbg =
     \<lparr>databaseOptimizations = \<lparr>cachingStrategy_key = Some strategy, debug_key = Some dbg\<rparr>,
      databaseTableOptimizations = (\<lambda>name. None),
      initialize_settles = (\<lambda>t. None),
      destroy_settles = (\<lambda>t. None)\<rparr>"

text \<open>The same, but every \<^verbatim>\<open>initialize()\<close> of a table rejects.\<close>

definition failing_initialize :: "CoreDatabaseCachingStrategy \<Rightarrow> bool \<Rightarrow> environment" where
  "failing_initialize strategy dbg =
     (optimizations strategy dbg)\<lparr>initialize_settles := (\<lambda>t. Some (Rejection ''initialize''))\<rparr>"

text \<open>Tables that answer every operation with their own address and count the operations.\<close>

definition echo :: "(nat, nat, nat) tables" where
  "echo t call db = (Inr t, Suc db)"

text \<open>A proxy for the table \<open>t\<close> with no configuration of its own, initialized in an environment.\<close>

definition started :: "environment \<Rightarrow> nat state" where
  "started env = snd (initialize env (constructor no_keys 7 ''t'' None))"

section \<open>Properties of the operations\<close>

lemma createTarget_plain:
  "\<not> debug (getRuntimeConfig env s) \<Longrightarrow>
   createTarget env s =
     (length (heap s),
      s\<lparr>heap := heap s @ [Table (targetConstructors (cachingStrategy (getRuntimeConfig env s))) (database s) (tableName s) (primaryKeyColumns s)],
        events := events s @ [Constructed (length (heap s)) (targetConstructors (cachingStrategy (getRuntimeConfig env s)))]\<rparr>)"
  by (simp add: createTarget_def createTable_def allocate_def emit_def Let_def)

lemma createTarget_debug:
  "debug (getRuntimeConfig env s) \<Longrightarrow>
   createTarget env s =
     (Suc (length (heap s)),
      s\<lparr>heap := heap s @ [Table (targetConstructors (cachingStrategy (getRuntimeConfig env s))) (database s) (tableName s) (primaryKeyColumns s),
                         DebugTable (length (heap s))],
        events := events s @ [Constructed (length (heap s)) (targetConstructors (cachingStrategy (getRuntimeConfig env s))),
                              Constructed (Suc (length (heap s))) CoreDebugDatabaseTable]\<rparr>)"
  by (simp add: createTarget_def createTable_def allocate_def emit_def Let_def)

lemma callback_fixed:
  "environment_callback env s = s \<Longrightarrow> environment_updated env s = s"
proof -
  assume h: "environment_callback env s = s"
  have "foldl (\<lambda>s1 ob. environment_callback env s1) s obs = s" for obs
    by (induction obs) (simp_all add: h)
  then show ?thesis by (simp add: environment_updated_def)
qed

lemma registry_not_debug [simp]:
  "targetConstructors strategy \<noteq> CoreDebugDatabaseTable"
  "CoreDebugDatabaseTable \<noteq> targetConstructors strategy"
  by (cases strategy; simp)+

lemma registry_inj [simp]:
  "(targetConstructors a = targetConstructors b) = (a = b)"
  by (cases a; cases b; simp)

lemma built_from_not_wanted:
  "built_from h cfg t \<Longrightarrow> \<not> update_wanted h cfg t"
  by (auto simp: built_from_def update_wanted_def originalTarget_def split: option.splits table_object.splits if_splits)

lemma createTarget_new:
  "fst (createTarget env s) =
     (if debug (getRuntimeConfig env s) then Suc (length (heap s)) else length (heap s))"
  by (simp add: createTarget_plain createTarget_debug)

lemma createTarget_heap:
  "heap (snd (createTarget env s)) =
     heap s @ Table (targetConstructors (cachingStrategy (getRuntimeConfig env s))) (database s) (tableName s) (primaryKeyColumns s)
       # (if debug (getRuntimeConfig env s) then [DebugTable (length (heap s))] else [])"
  by (simp add: createTarget_plain createTarget_debug)

lemma createTarget_events:
  "events (snd (createTarget env s)) =
     events s @ Constructed (length (heap s)) (targetConstructors (cachingStrategy (getRuntimeConfig env s)))
       # (if debug (getRuntimeConfig env s) then [Constructed (Suc (length (heap s))) CoreDebugDatabaseTable] else [])"
  by (simp add: createTarget_plain createTarget_debug)

lemma createTarget_frame [simp]:
  "target (snd (createTarget env s)) = target s"
  "waiting (snd (createTarget env s)) = waiting s"
  "resumed (snd (createTarget env s)) = resumed s"
  "environmentObserver (snd (createTarget env s)) = environmentObserver s"
  "observers (snd (createTarget env s)) = observers s"
  "observer_count (snd (createTarget env s)) = observer_count s"
  "config (snd (createTarget env s)) = config s"
  "tableName (snd (createTarget env s)) = tableName s"
  "database (snd (createTarget env s)) = database s"
  "primaryKeyColumns (snd (createTarget env s)) = primaryKeyColumns s"
  by (cases "debug (getRuntimeConfig env s)"; simp add: createTarget_plain createTarget_debug)+

lemma createTarget_built:
  "built_from (heap (snd (createTarget env s))) (getRuntimeConfig env s) (fst (createTarget env s))"
  by (simp add: built_from_def createTarget_new createTarget_heap deref_def nth_append)

lemma createTarget_original:
  "originalTarget (heap (snd (createTarget env s))) (fst (createTarget env s)) = length (heap s)"
  by (simp add: originalTarget_def createTarget_new createTarget_heap deref_def nth_append)

lemma updateTarget_unfold:
  "updateTarget env s =
     (case (case target s of
              None \<Rightarrow> Inr (snd (createTarget env s))
            | Some old \<Rightarrow>
                (case destroy_settles env old of
                   Some e \<Rightarrow> Inl (e, emit (DestroySettled old (Some e)) (snd (createTarget env s)))
                 | None \<Rightarrow> Inr (resetInstance (emit (DestroySettled old None) (snd (createTarget env s)))))) of
        Inl (e, s2) \<Rightarrow> (Inl e, s2)
      | Inr s2 \<Rightarrow>
          (case initialize_settles env (fst (createTarget env s)) of
             Some e \<Rightarrow> (Inl e, emit (InitializeSettled (fst (createTarget env s)) (Some e)) s2)
           | None \<Rightarrow> (Inr (), setInstance (fst (createTarget env s)) (emit (InitializeSettled (fst (createTarget env s)) None) s2))))"
  by (simp add: updateTarget_def Let_def case_prod_beta)

lemma updateTarget_replaces:
  "target s = Some old \<Longrightarrow> destroy_settles env old = None \<Longrightarrow>
   initialize_settles env (fst (createTarget env s)) = None \<Longrightarrow>
   updateTarget env s =
     (Inr (), setInstance (fst (createTarget env s))
        (emit (InitializeSettled (fst (createTarget env s)) None)
          (resetInstance (emit (DestroySettled old None) (snd (createTarget env s))))))"
  by (simp add: updateTarget_unfold)

lemma updateTarget_initialize_fails:
  "target s = Some old \<Longrightarrow> destroy_settles env old = None \<Longrightarrow>
   initialize_settles env (fst (createTarget env s)) = Some e \<Longrightarrow>
   updateTarget env s =
     (Inl e, emit (InitializeSettled (fst (createTarget env s)) (Some e))
        (resetInstance (emit (DestroySettled old None) (snd (createTarget env s)))))"
  by (simp add: updateTarget_unfold)

lemma updateTarget_resolved:
  "fst (updateTarget env s) = Inr () \<Longrightarrow>
   target (snd (updateTarget env s)) = Some (fst (createTarget env s)) \<and>
   heap (snd (updateTarget env s)) = heap (snd (createTarget env s)) \<and>
   config (snd (updateTarget env s)) = config s \<and>
   tableName (snd (updateTarget env s)) = tableName s \<and>
   observers (snd (updateTarget env s)) = observers s \<and>
   environmentObserver (snd (updateTarget env s)) = environmentObserver s"
  by (auto simp: updateTarget_unfold setInstance_def emit_def resetInstance_def split: option.splits)

lemma updateTarget_frame [simp]:
  "config (snd (updateTarget env s)) = config s"
  "tableName (snd (updateTarget env s)) = tableName s"
  "database (snd (updateTarget env s)) = database s"
  "primaryKeyColumns (snd (updateTarget env s)) = primaryKeyColumns s"
  "observers (snd (updateTarget env s)) = observers s"
  "observer_count (snd (updateTarget env s)) = observer_count s"
  "environmentObserver (snd (updateTarget env s)) = environmentObserver s"
  by (simp_all add: updateTarget_unfold setInstance_def emit_def resetInstance_def split: option.splits)

lemma getRuntimeConfig_updateTarget [simp]:
  "getRuntimeConfig env (snd (updateTarget env' s)) = getRuntimeConfig env s"
  by (simp add: getRuntimeConfig_def)

lemma updateTarget_events_prefix:
  "take (length (events s)) (events (snd (updateTarget env s))) = events s"
  by (simp add: updateTarget_unfold setInstance_def emit_def resetInstance_def createTarget_events split: option.splits)

lemma updateTarget_constructs_first:
  "take (Suc (length (events s))) (events (snd (updateTarget env s)))
     = events s @ [Constructed (length (heap s)) (targetConstructors (cachingStrategy (getRuntimeConfig env s)))]"
  by (simp add: updateTarget_unfold setInstance_def emit_def resetInstance_def createTarget_events split: option.splits)

lemma callback_waits:
  "target s = None \<Longrightarrow>
   environment_callback env s = s\<lparr>waiting := waiting s @ [ShouldUpdate (getRuntimeConfig env s)]\<rparr>"
  by (simp add: environment_callback_def shouldUpdateTarget_def)

lemma updated_waits:
  "target s = None \<Longrightarrow> target (environment_updated env s) = None \<and> events (environment_updated env s) = events s
     \<and> heap (environment_updated env s) = heap s"
proof -
  assume a: "target s = None"
  have "target s1 = None \<Longrightarrow> target (foldl (\<lambda>s1 ob. environment_callback env s1) s1 obs) = None
      \<and> events (foldl (\<lambda>s1 ob. environment_callback env s1) s1 obs) = events s1
      \<and> heap (foldl (\<lambda>s1 ob. environment_callback env s1) s1 obs) = heap s1" for obs and s1 :: "'a state"
    by (induction obs arbitrary: s1) (simp_all add: callback_waits)
  with a show ?thesis by (simp add: environment_updated_def)
qed

lemma protocol_examples:
  "protocol [DestroySettled 0 None, InstanceReset, InitializeSettled 1 None, InstanceSet 1, Forwarded 1 call]"
  "\<not> protocol [InstanceReset]"
  "\<not> protocol [DestroySettled 0 (Some e), InstanceReset]"
  "\<not> protocol [InitializeSettled 1 (Some e), InstanceSet 1]"
  "\<not> protocol [InitializeSettled 1 None, InstanceSet 2]"
  "\<not> protocol [InstanceSet 1, InitializeSettled 1 None]"
  "\<not> protocol [Forwarded 1 call, InitializeSettled 1 None]"
  by (simp_all add: protocol_def)

lemma sound_iff:
  "sound s = (protocol (events s)
     \<and> (\<forall>t. target s = Some t \<longrightarrow> InitializeSettled t None \<in> set (events s))
     \<and> (\<forall>w t. (w, t) \<in> set (resumed s) \<longrightarrow> InitializeSettled t None \<in> set (events s)))"
  by (cases "target s") (auto simp: sound_def list_all_iff)

lemma sound_createTarget:
  "sound s \<Longrightarrow> sound (snd (createTarget env s))"
  by (auto simp: sound_iff createTarget_events protocol_def)

lemma sound_step:
  "sound s \<Longrightarrow> sound (snd (updateTarget_step env ph s))"
proof (cases ph)
  case Entered
  assume "sound s" then show ?thesis using Entered by simp
next
  case (AwaitingCreateTarget old)
  assume "sound s"
  then have "sound (snd (createTarget env s))" by (rule sound_createTarget)
  then show ?thesis using AwaitingCreateTarget
    by (simp add: case_prod_beta split: option.splits)
next
  case (AwaitingDestroy old new)
  assume "sound s" then show ?thesis using AwaitingDestroy
    by (auto simp: sound_iff emit_def resetInstance_def protocol_def split: option.splits)
next
  case (AwaitingInitialize new)
  assume "sound s" then show ?thesis using AwaitingInitialize
    by (auto simp: sound_iff emit_def setInstance_def protocol_def split: option.splits)
next
  case (Returned r)
  assume "sound s" then show ?thesis using Returned by simp
qed

lemma four_steps:
  "run tables [Advance env, Advance env, Advance env, Advance env] (Entered, s, db)
     = (Returned (fst (updateTarget env s)), snd (updateTarget env s), db)"
  by (simp add: run_def updateTarget_unfold case_prod_beta split: option.splits)

lemma updateTarget_as_steps:
  "snd (updateTarget env s)
      = snd (updateTarget_step env
          (fst (updateTarget_step env (fst (updateTarget_step env (AwaitingCreateTarget (target s)) s))
             (snd (updateTarget_step env (AwaitingCreateTarget (target s)) s))))
          (snd (updateTarget_step env (fst (updateTarget_step env (AwaitingCreateTarget (target s)) s))
             (snd (updateTarget_step env (AwaitingCreateTarget (target s)) s)))))"
  by (simp add: updateTarget_unfold case_prod_beta split: option.splits)

lemma sound_updateTarget:
  "sound s \<Longrightarrow> sound (snd (updateTarget env s))"
  by (simp only: updateTarget_as_steps sound_step)

lemma sound_callback:
  "sound s \<Longrightarrow> sound (environment_callback env s)"
proof (cases "target s")
  case None
  assume "sound s"
  then have "sound (s\<lparr>waiting := waiting s @ [ShouldUpdate (getRuntimeConfig env s)]\<rparr>)"
    by (simp add: sound_iff)
  then show ?thesis using None
    by (simp add: environment_callback_def shouldUpdateTarget_def)
next
  case (Some t)
  assume "sound s"
  then show ?thesis using Some
    by (simp add: environment_callback_def shouldUpdateTarget_def sound_updateTarget split: bool.splits)
qed

lemma sound_updated:
  "sound s \<Longrightarrow> sound (environment_updated env s)"
proof -
  have "sound s1 \<Longrightarrow> sound (foldl (\<lambda>s1 ob. environment_callback env s1) s1 obs)" for obs and s1 :: "'a state"
    by (induction obs arbitrary: s1) (simp_all add: sound_callback)
  then show "sound s \<Longrightarrow> sound (environment_updated env s)"
    by (simp add: environment_updated_def)
qed

lemma sound_target_call:
  "sound s \<Longrightarrow> sound (fst (snd (target_call tables call s db)))"
  by (cases "target s") (auto simp: target_call_def sound_iff emit_def protocol_def)

lemma sound_resume:
  "sound s \<Longrightarrow> sound (fst (snd (resume tables env s db)))"
proof (cases "resumed s")
  case Nil
  assume "sound s" then show ?thesis using Nil by (simp add: resume_def)
next
  case (Cons p rest)
  assume a: "sound s"
  obtain w t where p: "p = (w, t)" by (cases p)
  have r: "sound (s\<lparr>resumed := rest\<rparr>)"
    using a Cons by (auto simp: sound_iff)
  show ?thesis
  proof (cases w)
    case (MethodCall call)
    then show ?thesis using a Cons p
      by (auto simp: resume_def sound_iff emit_def protocol_def)
  next
    case (ShouldUpdate cfg)
    then show ?thesis using r Cons p
      by (simp add: resume_def sound_updateTarget)
  qed
qed

lemma sound_perform:
  "sound (fst (snd c)) \<Longrightarrow> sound (fst (snd (perform tables c act)))"
  by (cases c; cases act) (simp_all add: sound_step sound_target_call sound_resume sound_updated)

lemma sound_run:
  "sound (fst (snd c)) \<Longrightarrow> sound (fst (snd (run tables acts c)))"
  unfolding run_def by (induction acts arbitrary: c) (simp_all add: sound_perform)

lemma held_createTarget:
  "held call (snd (createTarget env s)) = held call s"
  by (simp add: held_def)

lemma held_step:
  "held call s \<Longrightarrow> held call (snd (updateTarget_step env ph s))"
proof (cases ph)
  case (AwaitingCreateTarget old)
  assume "held call s"
  then have "held call (snd (createTarget env s))" by (simp add: held_createTarget)
  then show ?thesis using AwaitingCreateTarget by (simp add: case_prod_beta split: option.splits)
next
  case (AwaitingDestroy old new)
  assume "held call s" then show ?thesis using AwaitingDestroy
    by (simp add: held_def emit_def resetInstance_def split: option.splits)
next
  case (AwaitingInitialize new)
  assume "held call s" then show ?thesis using AwaitingInitialize
    by (auto simp: held_def emit_def setInstance_def image_Un image_image split: option.splits)
qed simp_all

lemma held_updateTarget:
  "held call s \<Longrightarrow> held call (snd (updateTarget env s))"
  by (simp only: updateTarget_as_steps held_step)

lemma held_callback:
  "held call s \<Longrightarrow> held call (environment_callback env s)"
proof (cases "target s")
  case None
  assume "held call s" then show ?thesis using None
    by (simp add: environment_callback_def shouldUpdateTarget_def held_def)
next
  case (Some t)
  assume "held call s" then show ?thesis using Some
    by (simp add: environment_callback_def shouldUpdateTarget_def held_updateTarget split: bool.splits)
qed

lemma held_updated:
  "held call s \<Longrightarrow> held call (environment_updated env s)"
proof -
  have "held call s1 \<Longrightarrow> held call (foldl (\<lambda>s1 ob. environment_callback env s1) s1 obs)" for obs and s1 :: "'a state"
    by (induction obs arbitrary: s1) (simp_all add: held_callback)
  then show "held call s \<Longrightarrow> held call (environment_updated env s)"
    by (simp add: environment_updated_def)
qed

lemma waiting_perform:
  "MethodCall call \<in> set (waiting s) \<Longrightarrow> held call (fst (snd (perform tables (ph, s, db) act)))"
proof (cases act)
  case (Advance env)
  assume "MethodCall call \<in> set (waiting s)"
  then have "held call s" by (simp add: held_def)
  then show ?thesis using Advance by (simp add: held_step)
next
  case (Issue c)
  assume "MethodCall call \<in> set (waiting s)"
  then show ?thesis using Issue by (simp add: held_def target_call_def emit_def split: option.splits)
next
  case (Resume env)
  assume a: "MethodCall call \<in> set (waiting s)"
  show ?thesis
  proof (cases "resumed s")
    case Nil
    then show ?thesis using a Resume by (simp add: resume_def held_def)
  next
    case (Cons p rest)
    obtain w t where p: "p = (w, t)" by (cases p)
    have h: "held call (s\<lparr>resumed := rest\<rparr>)" using a by (simp add: held_def)
    show ?thesis
    proof (cases w)
      case (MethodCall c)
      then show ?thesis using a Resume Cons p by (simp add: resume_def held_def emit_def)
    next
      case (ShouldUpdate cfg)
      then show ?thesis using h Resume Cons p by (simp add: resume_def held_updateTarget)
    qed
  qed
next
  case (Notify env)
  assume "MethodCall call \<in> set (waiting s)"
  then have "held call s" by (simp add: held_def)
  then show ?thesis using Notify by (simp add: held_updated)
qed

lemma at_rest_updateTarget:
  "at_rest s \<Longrightarrow> waiting s = [] \<Longrightarrow> at_rest (snd (updateTarget env s))"
  by (auto simp: at_rest_def updateTarget_unfold setInstance_def emit_def resetInstance_def split: option.splits)

lemma at_rest_callback:
  "at_rest s \<Longrightarrow> at_rest (environment_callback env s)"
proof (cases "target s")
  case None
  assume "at_rest s" then show ?thesis using None
    by (simp add: environment_callback_def shouldUpdateTarget_def at_rest_def)
next
  case (Some t)
  assume a: "at_rest s"
  then have "waiting s = []" using Some by (simp add: at_rest_def)
  then show ?thesis using a Some
    by (simp add: environment_callback_def shouldUpdateTarget_def at_rest_updateTarget split: bool.splits)
qed

lemma at_rest_updated:
  "at_rest s \<Longrightarrow> at_rest (environment_updated env s)"
proof -
  have "at_rest s1 \<Longrightarrow> at_rest (foldl (\<lambda>s1 ob. environment_callback env s1) s1 obs)" for obs and s1 :: "'a state"
    by (induction obs arbitrary: s1) (simp_all add: at_rest_callback)
  then show "at_rest s \<Longrightarrow> at_rest (environment_updated env s)"
    by (simp add: environment_updated_def)
qed

lemma at_rest_perform:
  assumes "at_rest s"
  shows "fst (perform tables (Returned r, s, db) act) = Returned r
    \<and> at_rest (fst (snd (perform tables (Returned r, s, db) act)))"
proof (cases act)
  case (Advance env)
  then show ?thesis using assms by simp
next
  case (Issue call)
  then show ?thesis using assms
    by (auto simp: target_call_def emit_def at_rest_def split: option.splits)
next
  case (Resume env)
  show ?thesis
  proof (cases "resumed s")
    case Nil
    then show ?thesis using assms Resume by (simp add: resume_def)
  next
    case (Cons p rest)
    obtain w t where p: "p = (w, t)" by (cases p)
    from assms Cons p obtain call where w: "w = MethodCall call" and rest: "calls_only rest"
      by (cases w) (simp_all add: calls_only_def at_rest_def)
    show ?thesis using assms Resume Cons p w rest
      by (simp add: resume_def emit_def at_rest_def)
  qed
next
  case (Notify env)
  then show ?thesis using assms by (simp add: at_rest_updated)
qed

lemma at_rest_run:
  "at_rest s \<Longrightarrow>
   fst (run tables acts (Returned r, s, db)) = Returned r
   \<and> at_rest (fst (snd (run tables acts (Returned r, s, db))))"
proof (induction acts arbitrary: s db)
  case Nil
  then show ?case by (simp add: run_def)
next
  case (Cons act acts)
  obtain s1 db1 where p: "perform tables (Returned r, s, db) act = (Returned r, s1, db1)"
    using at_rest_perform [OF Cons.prems, of tables r db act]
    by (cases "perform tables (Returned r, s, db) act") simp
  have q: "at_rest s1"
    using at_rest_perform [OF Cons.prems, of tables r db act] by (simp add: p)
  have "run tables (act # acts) (Returned r, s, db) = run tables acts (Returned r, s1, db1)"
    by (simp add: run_def p)
  then show ?case using Cons.IH [OF q, of db1] by simp
qed

lemma at_rest_initialize:
  "at_rest (snd (initialize env (constructor cfg d name keys)))"
proof -
  let ?s1 = "(snd (subscribe (constructor cfg d name keys :: 'a state)))\<lparr>environmentObserver := Some 0\<rparr>"
  have i: "initialize env (constructor cfg d name keys :: 'a state) = updateTarget env ?s1"
    by (simp add: initialize_def subscribe_def constructor_def)
  have "at_rest ?s1" "waiting ?s1 = []"
    by (simp_all add: at_rest_def subscribe_def constructor_def emit_def calls_only_def)
  then show ?thesis by (simp only: i at_rest_updateTarget)
qed

text \<open>
  A proxy that has been constructed and initialized once is at rest after any history of
  table operations, resumed awaiters and environment updates in which each update has
  run before the next thing happens.
\<close>

lemma lifecycle_at_rest:
  "at_rest (fst (snd (run tables earlier
     (Returned r, snd (initialize env (constructor cfg d name keys)), db))))"
  using at_rest_run [OF at_rest_initialize, of tables earlier r env cfg d name keys db] by simp

lemma sound_initialize:
  "sound s \<Longrightarrow> sound (snd (initialize env s))"
proof -
  assume "sound s"
  then have "sound ((snd (subscribe s))\<lparr>environmentObserver := Some (observer_count s)\<rparr>)"
    by (simp add: sound_iff subscribe_def emit_def protocol_def)
  then show ?thesis by (simp add: initialize_def subscribe_def sound_updateTarget)
qed

lemma sound_constructor:
  "sound (constructor cfg d name keys)"
  by (simp add: sound_def constructor_def protocol_def)

lemma sound_destroy:
  "sound s \<Longrightarrow> sound (snd (destroy s))"
  by (auto simp: sound_iff destroy_def off_def emit_def protocol_def split: option.splits)

lemma updated_unobserved:
  "observers s = [] \<Longrightarrow> environment_updated env s = s"
  by (simp add: environment_updated_def)

lemma quiet_perform:
  assumes "observers s = []" and "calls_only (resumed s)"
  shows "fst (perform tables (Returned r, s, db) act) = Returned r
    \<and> observers (fst (snd (perform tables (Returned r, s, db) act))) = []
    \<and> calls_only (resumed (fst (snd (perform tables (Returned r, s, db) act))))
    \<and> target (fst (snd (perform tables (Returned r, s, db) act))) = target s
    \<and> heap (fst (snd (perform tables (Returned r, s, db) act))) = heap s"
proof (cases act)
  case (Advance env)
  then show ?thesis using assms by simp
next
  case (Issue call)
  then show ?thesis using assms
    by (simp add: target_call_def emit_def split: option.splits)
next
  case (Resume env)
  show ?thesis
  proof (cases "resumed s")
    case Nil
    then show ?thesis using assms Resume by (simp add: resume_def)
  next
    case (Cons p rest)
    obtain w t where p: "p = (w, t)" by (cases p)
    from assms(2) Cons p obtain call where w: "w = MethodCall call" and rest: "calls_only rest"
      by (cases w) (simp_all add: calls_only_def)
    show ?thesis using assms(1) Resume Cons p w rest
      by (simp add: resume_def emit_def)
  qed
next
  case (Notify env)
  then show ?thesis using assms by (simp add: updated_unobserved)
qed

lemma quiet_run:
  "observers s = [] \<Longrightarrow> calls_only (resumed s) \<Longrightarrow>
   fst (run tables acts (Returned r, s, db)) = Returned r
   \<and> observers (fst (snd (run tables acts (Returned r, s, db)))) = []
   \<and> target (fst (snd (run tables acts (Returned r, s, db)))) = target s
   \<and> heap (fst (snd (run tables acts (Returned r, s, db)))) = heap s"
proof (induction acts arbitrary: s db)
  case Nil
  then show ?case by (simp add: run_def)
next
  case (Cons act acts)
  obtain s1 db1 where p: "perform tables (Returned r, s, db) act = (Returned r, s1, db1)"
    using quiet_perform [OF Cons.prems, of tables r db act]
    by (cases "perform tables (Returned r, s, db) act") simp
  have q: "observers s1 = []" "calls_only (resumed s1)" "target s1 = target s" "heap s1 = heap s"
    using quiet_perform [OF Cons.prems, of tables r db act] by (simp_all add: p)
  have "run tables (act # acts) (Returned r, s, db) = run tables acts (Returned r, s1, db1)"
    by (simp add: run_def p)
  then show ?case using Cons.IH [OF q(1,2), of db1] q(3,4) by simp
qed

lemma grow_createTarget: "prefix (events s) (events (snd (createTarget env s)))"
  by (simp add: createTarget_events)

lemma grow_step: "prefix (events s) (events (snd (updateTarget_step env ph s)))"
  by (cases ph)
    (auto simp: case_prod_beta createTarget_events emit_def resetInstance_def setInstance_def
      split: option.splits)

lemma grow_updateTarget: "prefix (events s) (events (snd (updateTarget env s)))"
proof -
  have "prefix (events s) (events (snd (updateTarget_step env (AwaitingCreateTarget (target s)) s)))"
    by (rule grow_step)
  also have "prefix \<dots> (events (snd (updateTarget_step env (fst (updateTarget_step env (AwaitingCreateTarget (target s)) s))
             (snd (updateTarget_step env (AwaitingCreateTarget (target s)) s)))))"
    by (rule grow_step)
  also have "prefix \<dots> (events (snd (updateTarget env s)))"
    by (simp only: updateTarget_as_steps grow_step)
  finally show ?thesis .
qed

lemma grow_callback: "prefix (events s) (events (environment_callback env s))"
  by (cases "target s")
    (simp_all add: environment_callback_def shouldUpdateTarget_def grow_updateTarget split: bool.splits)

lemma grow_updated: "prefix (events s) (events (environment_updated env s))"
proof -
  have "prefix (events s1) (events (foldl (\<lambda>s1 ob. environment_callback env s1) s1 obs))" for obs and s1 :: "'a state"
  proof (induction obs arbitrary: s1)
    case Nil
    show ?case by simp
  next
    case (Cons ob obs)
    have "prefix (events s1) (events (environment_callback env s1))" by (rule grow_callback)
    also have "prefix \<dots> (events (foldl (\<lambda>s1 ob. environment_callback env s1) (environment_callback env s1) obs))"
      by (rule Cons.IH)
    finally show ?case by simp
  qed
  then show ?thesis by (simp add: environment_updated_def)
qed

lemma grow_target_call: "prefix (events s) (events (fst (snd (target_call tables call s db))))"
  by (simp add: target_call_def emit_def split: option.splits)

lemma grow_resume: "prefix (events s) (events (fst (snd (resume tables env s db))))"
proof (cases "resumed s")
  case Nil
  then show ?thesis by (simp add: resume_def)
next
  case (Cons p rest)
  obtain w t where p: "p = (w, t)" by (cases p)
  show ?thesis
  proof (cases w)
    case (MethodCall call)
    then show ?thesis using Cons p by (simp add: resume_def emit_def)
  next
    case (ShouldUpdate cfg)
    have "prefix (events (s\<lparr>resumed := rest\<rparr>)) (events (snd (updateTarget env (s\<lparr>resumed := rest\<rparr>))))"
      by (rule grow_updateTarget)
    then show ?thesis using ShouldUpdate Cons p by (simp add: resume_def)
  qed
qed

lemma grow_perform: "prefix (events s) (events (fst (snd (perform tables (ph, s, db) act))))"
  by (cases act) (simp_all add: grow_step grow_target_call grow_resume grow_updated)

lemma same_phase:
  "\<not> (\<exists>env. act = Advance env) \<Longrightarrow> fst (perform tables (ph, s, db) act) = ph"
  by (cases act) simp_all

lemma progress_grow:
  "progress old new ph es \<Longrightarrow> progress old new ph (es @ fs)"
  by (induction old new ph es rule: progress.induct) (auto intro: list_emb_append2 simp del: subseq_Cons2_iff)

lemma drop_grown:
  "prefix es es' \<Longrightarrow> k \<le> length es \<Longrightarrow> \<exists>fs. drop k es' = drop k es @ fs"
  by (auto simp: prefix_def)

lemma progress_perform:
  assumes k: "k \<le> length (events s)"
    and ph: "ph \<noteq> Entered"
    and p: "\<exists>new. progress old new ph (drop k (events s))"
  shows "fst (perform tables (ph, s, db) act) \<noteq> Entered
    \<and> (\<exists>new. progress old new (fst (perform tables (ph, s, db) act))
          (drop k (events (fst (snd (perform tables (ph, s, db) act))))))"
proof (cases "\<exists>env. act = Advance env")
  case False
  then have same: "fst (perform tables (ph, s, db) act) = ph" by (rule same_phase)
  from drop_grown [OF grow_perform k, of tables ph db act]
  obtain fs where "drop k (events (fst (snd (perform tables (ph, s, db) act)))) = drop k (events s) @ fs"
    by blast
  then show ?thesis using p ph same by (auto intro: progress_grow)
next
  case True
  then obtain env where act: "act = Advance env" by blast
  from p obtain new where pn: "progress old new ph (drop k (events s))" by blast
  show ?thesis
  proof (cases ph)
    case Entered
    then show ?thesis using ph by simp
  next
    case (AwaitingCreateTarget oldTarget)
    then have "oldTarget = Some old" using pn by simp
    then show ?thesis using act AwaitingCreateTarget by (simp add: case_prod_beta)
  next
    case (AwaitingDestroy oldTarget newTarget)
    then have o: "oldTarget = old" "newTarget = new" using pn by simp_all
    show ?thesis
    proof (cases "destroy_settles env old")
      case None
      have "subseq [DestroySettled old None, InstanceReset]
              (drop k (events s) @ [DestroySettled old None, InstanceReset])"
        by (rule list_emb_append2) simp
      then have "progress old new (fst (perform tables (ph, s, db) act))
          (drop k (events (fst (snd (perform tables (ph, s, db) act)))))"
        using act AwaitingDestroy o k None by (simp add: emit_def resetInstance_def del: subseq_Cons2_iff)
      moreover have "fst (perform tables (ph, s, db) act) \<noteq> Entered"
        using act AwaitingDestroy o None by simp
      ultimately show ?thesis by blast
    next
      case (Some e)
      then show ?thesis using act AwaitingDestroy o by simp
    qed
  next
    case (AwaitingInitialize newTarget)
    then have n: "newTarget = new" and sq: "subseq [DestroySettled old None, InstanceReset] (drop k (events s))"
      using pn by simp_all
    show ?thesis
    proof (cases "initialize_settles env new")
      case None
      have "subseq ([DestroySettled old None, InstanceReset] @ [InitializeSettled new None, InstanceSet new])
              (drop k (events s) @ [InitializeSettled new None, InstanceSet new])"
        using sq by (rule list_emb_append_mono) simp
      then have "progress old new (fst (perform tables (ph, s, db) act))
          (drop k (events (fst (snd (perform tables (ph, s, db) act)))))"
        using act AwaitingInitialize n k None by (simp add: emit_def setInstance_def del: subseq_Cons2_iff)
      moreover have "fst (perform tables (ph, s, db) act) \<noteq> Entered"
        using act AwaitingInitialize n None by simp
      ultimately show ?thesis by blast
    next
      case (Some e)
      then show ?thesis using act AwaitingInitialize n by simp
    qed
  next
    case (Returned r)
    then show ?thesis using act p by simp
  qed
qed

lemma run_snoc: "run tables (acts @ [act]) c = perform tables (run tables acts c) act"
  by (simp add: run_def)

lemma grow_run: "prefix (events (fst (snd c))) (events (fst (snd (run tables acts c))))"
proof (induction acts rule: rev_induct)
  case Nil
  show ?case by (simp add: run_def)
next
  case (snoc act acts)
  obtain ph s db where r: "run tables acts c = (ph, s, db)" by (cases "run tables acts c")
  have "prefix (events s) (events (fst (snd (perform tables (ph, s, db) act))))"
    by (rule grow_perform)
  with snoc show ?case by (simp add: run_snoc r)
qed

lemma progress_run:
  assumes "target s = Some old"
  shows "fst (run tables (Advance env # acts) (Entered, s, db)) \<noteq> Entered
    \<and> (\<exists>new. progress old new (fst (run tables (Advance env # acts) (Entered, s, db)))
          (drop (length (events s)) (events (fst (snd (run tables (Advance env # acts) (Entered, s, db)))))))"
proof (induction acts rule: rev_induct)
  case Nil
  show ?case using assms by (simp add: run_def)
next
  case (snoc act acts)
  obtain ph s1 db1 where r: "run tables (Advance env # acts) (Entered, s, db) = (ph, s1, db1)"
    by (cases "run tables (Advance env # acts) (Entered, s, db)")
  have "prefix (events s) (events s1)"
    using grow_run [of "(Entered, s, db)" tables "Advance env # acts"] by (simp add: r)
  then have k: "length (events s) \<le> length (events s1)"
    by (rule prefix_length_le)
  have "run tables (Advance env # acts @ [act]) (Entered, s, db) = perform tables (ph, s1, db1) act"
    using run_snoc [of tables "Advance env # acts" act "(Entered, s, db)"] by (simp add: r)
  then show ?case
    using progress_perform [OF k, of ph old tables db1 act] snoc by (simp add: r)
qed

lemmas run_defs =
  started_def echo_def failing_initialize_def
  constructor_def initialize_def subscribe_def updateTarget_def createTarget_def createTable_def
  allocate_def emit_def setInstance_def resetInstance_def getRuntimeConfig_def spread_def
  getConfigDefaults_def no_keys_def optimizations_def environment_updated_def
  environment_callback_def shouldUpdateTarget_def update_wanted_def originalTarget_def deref_def
  built_from_def destroy_def off_def target_call_def Let_def

section \<open>The claims\<close>

subsection \<open>Forwarding\<close>

text \<open>
  C1. Forwarding transparency. With an instance \<open>t\<close> in the handle, each of the twelve
  table operations of the proxy answers what the same operation with the same arguments
  answers on \<open>t\<close> itself, a value or a rejection, and leaves the storage as that call
  leaves it; the proxy changes neither the arguments nor the answer, and records only that
  it has forwarded the call.
\<close>

theorem forwarding_transparency:
  assumes "target s = Some t"
  shows "getMany tables conditions options s db
      = (Settled (fst (tables t (GetMany conditions options) db)),
         emit (Forwarded t (GetMany conditions options)) s,
         snd (tables t (GetMany conditions options) db))
    \<and> getManyWhere tables richConditions s db
      = (Settled (fst (tables t (GetManyWhere richConditions) db)),
         emit (Forwarded t (GetManyWhere richConditions)) s,
         snd (tables t (GetManyWhere richConditions) db))
    \<and> getOne tables conditions options s db
      = (Settled (fst (tables t (GetOne conditions options) db)),
         emit (Forwarded t (GetOne conditions options)) s,
         snd (tables t (GetOne conditions options) db))
    \<and> getOneByPrimaryKey tables primaryKey s db
      = (Settled (fst (tables t (GetOneByPrimaryKey primaryKey) db)),
         emit (Forwarded t (GetOneByPrimaryKey primaryKey)) s,
         snd (tables t (GetOneByPrimaryKey primaryKey) db))
    \<and> reduce tables reducer richConditions' s db
      = (Settled (fst (tables t (Reduce reducer richConditions') db)),
         emit (Forwarded t (Reduce reducer richConditions')) s,
         snd (tables t (Reduce reducer richConditions') db))
    \<and> hasAny tables conditions s db
      = (Settled (fst (tables t (HasAny conditions) db)),
         emit (Forwarded t (HasAny conditions)) s,
         snd (tables t (HasAny conditions) db))
    \<and> count tables conditions s db
      = (Settled (fst (tables t (Count conditions) db)),
         emit (Forwarded t (Count conditions)) s,
         snd (tables t (Count conditions) db))
    \<and> insert' tables record s db
      = (Settled (fst (tables t (Insert record) db)),
         emit (Forwarded t (Insert record)) s,
         snd (tables t (Insert record) db))
    \<and> update tables updates conditions s db
      = (Settled (fst (tables t (Update updates conditions) db)),
         emit (Forwarded t (Update updates conditions)) s,
         snd (tables t (Update updates conditions) db))
    \<and> updateWhere tables updates richConditions s db
      = (Settled (fst (tables t (UpdateWhere updates richConditions) db)),
         emit (Forwarded t (UpdateWhere updates richConditions)) s,
         snd (tables t (UpdateWhere updates richConditions) db))
    \<and> delete tables conditions s db
      = (Settled (fst (tables t (Delete conditions) db)),
         emit (Forwarded t (Delete conditions)) s,
         snd (tables t (Delete conditions) db))
    \<and> deleteByPrimaryKey tables primaryKey s db
      = (Settled (fst (tables t (DeleteByPrimaryKey primaryKey) db)),
         emit (Forwarded t (DeleteByPrimaryKey primaryKey)) s,
         snd (tables t (DeleteByPrimaryKey primaryKey) db))"
  using assms
  by (simp add: getMany_def getManyWhere_def getOne_def getOneByPrimaryKey_def reduce_def
      hasAny_def count_def insert'_def update_def updateWhere_def delete_def
      deleteByPrimaryKey_def target_call_def)

theorem forwarding_transparency_witness:
  "target (started (optimizations Lazy True)) = Some 1
   \<and> fst (getMany echo None (Some 3) (started (optimizations Lazy True)) 0) = Settled (Inr 1)
   \<and> snd (snd (getMany echo None (Some 3) (started (optimizations Lazy True)) 0)) = 1
   \<and> fst (insert' echo 5 (started (optimizations Lazy True)) 0) = Settled (Inr 1)
   \<and> fst (deleteByPrimaryKey echo 5 (started (optimizations Lazy True)) 0) = Settled (Inr 1)"
proof -
  have t: "target (started (optimizations Lazy True)) = Some 1"
    by (simp add: run_defs)
  show ?thesis
    using t forwarding_transparency [OF t, of echo None "Some 3" 0 3 5 3 None 5 5]
    by (simp add: echo_def)
qed

subsection \<open>The swap\<close>

text \<open>
  C2, as stated, fails where the new configuration wants debug: the instance installed
  for the strategy \<open>Eager\<close> is then a debug table, whose constructor is not the one the
  registry has for \<open>Eager\<close>.
\<close>

theorem strategy_change_counterexample:
  "target (started (optimizations None' False)) = Some 0
   \<and> map_option constructor_of (deref (heap (started (optimizations None' False))) 0)
      = Some (targetConstructors None')
   \<and> cachingStrategy (getRuntimeConfig (optimizations Eager True) (started (optimizations None' False))) = Eager
   \<and> observers (started (optimizations None' False)) = [0]
   \<and> target (environment_updated (optimizations Eager True) (started (optimizations None' False))) = Some 2
   \<and> map_option constructor_of
        (deref (heap (environment_updated (optimizations Eager True) (started (optimizations None' False)))) 2)
      = Some CoreDebugDatabaseTable
   \<and> targetConstructors Eager \<noteq> CoreDebugDatabaseTable"
  by (simp add: run_defs)

text \<open>
  C2, amended. Strategy-change swap. Let the handle hold an instance \<open>old\<close> whose
  underlying table (the table itself, or the one its debug table wraps) was built by the
  constructor of a strategy \<open>A\<close>, let the configuration resolve to another strategy \<open>B\<close>,
  and let the environment be updated while the proxy has one observer registered (it has
  been initialized once). Then the callback
  decides to update, and once the update it starts has run (\<^verbatim>\<open>destroy()\<close> of the old and
  \<^verbatim>\<open>initialize()\<close> of the new target having resolved) the handle holds the target that
  update has built: its underlying table is a new object of the constructor the registry
  has for \<open>B\<close>, wrapped in a debug table exactly when the configuration wants debug; and
  the events of the update are, after the constructions, \<^verbatim>\<open>destroy()\<close> of the old
  instance, the clearing of the handle, \<^verbatim>\<open>initialize()\<close> of the new one, and its
  installation.
\<close>

theorem strategy_change_swap:
  assumes "target s = Some old"
    and "map_option constructor_of (deref (heap s) (originalTarget (heap s) old)) = Some (targetConstructors A)"
    and "cachingStrategy (getRuntimeConfig env s) = B"
    and "A \<noteq> B"
    and "observers s = [ob]"
    and "destroy_settles env old = None"
    and "initialize_settles env (fst (createTarget env s)) = None"
  shows "shouldUpdateTarget env s = (Some True, s)
    \<and> target (environment_updated env s) = Some (fst (createTarget env s))
    \<and> built_from (heap (environment_updated env s)) (getRuntimeConfig env s) (fst (createTarget env s))
    \<and> originalTarget (heap (environment_updated env s)) (fst (createTarget env s)) = length (heap s)
    \<and> deref (heap (environment_updated env s)) (length (heap s))
        = Some (Table (targetConstructors B) (database s) (tableName s) (primaryKeyColumns s))
    \<and> events (snd (createTarget env s))
        = events s @ Constructed (length (heap s)) (targetConstructors B)
            # (if debug (getRuntimeConfig env s)
               then [Constructed (Suc (length (heap s))) CoreDebugDatabaseTable] else [])
    \<and> events (environment_updated env s)
        = events (snd (createTarget env s))
          @ [DestroySettled old None, InstanceReset,
             InitializeSettled (fst (createTarget env s)) None, InstanceSet (fst (createTarget env s))]"
proof -
  let ?new = "fst (createTarget env s)"
  let ?s' = "snd (updateTarget env s)"
  have wanted: "update_wanted (heap s) (getRuntimeConfig env s) old"
    using assms(2,3,4) by (auto simp: update_wanted_def)
  then have should: "shouldUpdateTarget env s = (Some True, s)"
    using assms(1) by (simp add: shouldUpdateTarget_def)
  then have cb: "environment_callback env s = ?s'"
    by (simp add: environment_callback_def)
  have upd: "updateTarget env s =
     (Inr (), setInstance ?new (emit (InitializeSettled ?new None)
        (resetInstance (emit (DestroySettled old None) (snd (createTarget env s))))))"
    using assms(1,6,7) by (rule updateTarget_replaces)
  have tgt: "target ?s' = Some ?new" and hp: "heap ?s' = heap (snd (createTarget env s))"
    by (simp_all add: upd setInstance_def emit_def resetInstance_def)
  have built: "built_from (heap ?s') (getRuntimeConfig env ?s') ?new"
    by (simp add: hp createTarget_built)
  have eu: "environment_updated env s = ?s'"
    using assms(5) cb by (simp add: environment_updated_def)
  have ev: "events ?s' = events (snd (createTarget env s))
          @ [DestroySettled old None, InstanceReset, InitializeSettled ?new None, InstanceSet ?new]"
    by (simp add: upd setInstance_def emit_def resetInstance_def)
  have dr: "deref (heap ?s') (length (heap s))
        = Some (Table (targetConstructors B) (database s) (tableName s) (primaryKeyColumns s))"
    using assms(3) by (simp add: hp createTarget_heap deref_def nth_append)
  have cs: "events (snd (createTarget env s))
        = events s @ Constructed (length (heap s)) (targetConstructors B)
            # (if debug (getRuntimeConfig env s)
               then [Constructed (Suc (length (heap s))) CoreDebugDatabaseTable] else [])"
    using assms(3) by (simp add: createTarget_events)
  show ?thesis
    using should tgt built ev dr cs
    by (simp add: eu hp createTarget_original)
qed

theorem strategy_change_swap_witness:
  "target (started (optimizations None' False)) = Some 0
   \<and> target (environment_updated (optimizations Eager True) (started (optimizations None' False))) = Some 2
   \<and> heap (environment_updated (optimizations Eager True) (started (optimizations None' False)))
      = [Table CoreDatabaseTable 7 ''t'' [''id''], Table CoreEagerDatabaseTable 7 ''t'' [''id''], DebugTable 1]
   \<and> events (environment_updated (optimizations Eager True) (started (optimizations None' False)))
      = [Subscribed 0, Constructed 0 CoreDatabaseTable, InitializeSettled 0 None, InstanceSet 0,
         Constructed 1 CoreEagerDatabaseTable, Constructed 2 CoreDebugDatabaseTable,
         DestroySettled 0 None, InstanceReset, InitializeSettled 2 None, InstanceSet 2]"
proof -
  let ?s = "started (optimizations None' False) :: nat state"
  let ?env = "optimizations Eager True"
  have h1: "target ?s = Some 0"
    and h2: "map_option constructor_of (deref (heap ?s) (originalTarget (heap ?s) 0)) = Some (targetConstructors None')"
    and h3: "cachingStrategy (getRuntimeConfig ?env ?s) = Eager"
    and h4: "None' \<noteq> Eager"
    and h5: "observers ?s = [0]"
    and h6: "destroy_settles ?env 0 = None"
    and h7: "initialize_settles ?env (fst (createTarget ?env ?s)) = None"
    by (simp_all add: run_defs)
  show ?thesis
    using strategy_change_swap [OF h1 h2 h3 h4 h5 h6 h7]
    by (simp add: run_defs)
qed

text \<open>
  C3. Swap-window protocol. Take a proxy whose events so far keep the protocol and whose
  instance has been initialized, as it is after \<^verbatim>\<open>initialize\<close>. An execution of
  \<^verbatim>\<open>updateTarget\<close> cut at its awaits is the function above (four stretches). Run
  without interruption where an old instance exists and both lifecycle calls resolve, its
  events are: \<^verbatim>\<open>destroy()\<close> of the old instance resolved, the handle cleared,
  \<^verbatim>\<open>initialize()\<close> of the new target resolved, the new target set. Interleaved in any
  way with table operations issued by callers, with resumed awaiters going on and with
  environment updates, an execution that found an old instance still has these events in
  this order: while it awaits \<^verbatim>\<open>initialize()\<close> of the new target, \<^verbatim>\<open>destroy()\<close> of the old
  one has resolved and the handle has been cleared afterwards; when it has resolved,
  \<^verbatim>\<open>initialize()\<close> of the new target has resolved after that and the new target has been
  set last. All the events keep the protocol: the handle is cleared only right after a
  \<^verbatim>\<open>destroy()\<close> has resolved, an instance is set only right after its own
  \<^verbatim>\<open>initialize()\<close> has resolved, and an operation is forwarded only to a table whose
  \<^verbatim>\<open>initialize()\<close> has resolved. A table operation issued while the handle is cleared
  is put in the queue and nothing is forwarded; whatever happens next it stays held by
  the handle, which resumes it with the instance that is set; a resumed operation is
  forwarded to that instance.
\<close>

theorem swap_window_protocol:
  assumes "sound s"
  shows "run tables [Advance env, Advance env, Advance env, Advance env] (Entered, s, db)
        = (Returned (fst (updateTarget env s)), snd (updateTarget env s), db)
    \<and> (target s = Some old \<and> destroy_settles env old = None
         \<and> initialize_settles env (fst (createTarget env s)) = None
       \<longrightarrow> events (snd (updateTarget env s))
           = events (snd (createTarget env s))
             @ [DestroySettled old None, InstanceReset,
                InitializeSettled (fst (createTarget env s)) None, InstanceSet (fst (createTarget env s))])
    \<and> (target s = Some old
       \<longrightarrow> (\<exists>new. progress old new (fst (run tables (Advance env # acts) (Entered, s, db)))
             (drop (length (events s)) (events (fst (snd (run tables (Advance env # acts) (Entered, s, db))))))))
    \<and> sound (fst (snd (run tables acts (Entered, s, db))))
    \<and> protocol (events (fst (snd (run tables acts (Entered, s, db)))))
    \<and> (target s1 = None
       \<longrightarrow> perform tables (ph, s1, db1) (Issue call)
           = (ph, s1\<lparr>waiting := waiting s1 @ [MethodCall call]\<rparr>, db1))
    \<and> (MethodCall call \<in> set (waiting s1)
       \<longrightarrow> held call (fst (snd (perform tables (ph, s1, db1) act))))
    \<and> resumed (setInstance t s1) = resumed s1 @ map (\<lambda>w. (w, t)) (waiting s1)
    \<and> (resumed s1 = (MethodCall call, t) # rest
       \<longrightarrow> perform tables (ph, s1, db1) (Resume env)
           = (ph, emit (Forwarded t call) (s1\<lparr>resumed := rest\<rparr>), snd (tables t call db1)))"
proof -
  have a: "target s = Some old \<and> destroy_settles env old = None
         \<and> initialize_settles env (fst (createTarget env s)) = None
       \<longrightarrow> events (snd (updateTarget env s))
           = events (snd (createTarget env s))
             @ [DestroySettled old None, InstanceReset,
                InitializeSettled (fst (createTarget env s)) None, InstanceSet (fst (createTarget env s))]"
    by (simp add: updateTarget_replaces setInstance_def emit_def resetInstance_def)
  have p: "target s = Some old
       \<longrightarrow> (\<exists>new. progress old new (fst (run tables (Advance env # acts) (Entered, s, db)))
             (drop (length (events s)) (events (fst (snd (run tables (Advance env # acts) (Entered, s, db)))))))"
    using progress_run [of s old tables env acts db] by blast
  have b: "sound (fst (snd (run tables acts (Entered, s, db))))"
    using assms by (simp add: sound_run)
  then have c: "protocol (events (fst (snd (run tables acts (Entered, s, db)))))"
    by (simp add: sound_iff)
  have d: "target s1 = None
       \<longrightarrow> perform tables (ph, s1, db1) (Issue call)
           = (ph, s1\<lparr>waiting := waiting s1 @ [MethodCall call]\<rparr>, db1)"
    by (simp add: target_call_def)
  have e: "MethodCall call \<in> set (waiting s1)
       \<longrightarrow> held call (fst (snd (perform tables (ph, s1, db1) act)))"
    by (simp add: waiting_perform)
  have f: "resumed (setInstance t s1) = resumed s1 @ map (\<lambda>w. (w, t)) (waiting s1)"
    by (simp add: setInstance_def emit_def)
  have g: "resumed s1 = (MethodCall call, t) # rest
       \<longrightarrow> perform tables (ph, s1, db1) (Resume env)
           = (ph, emit (Forwarded t call) (s1\<lparr>resumed := rest\<rparr>), snd (tables t call db1))"
    by (simp add: resume_def)
  show ?thesis
    using four_steps [of tables env s db] a p b c d e f g by blast
qed

theorem swap_window_protocol_witness:
  "sound (started (optimizations None' False))
   \<and> target (started (optimizations None' False)) = Some 0
   \<and> progress 0 1 (Returned (Inr ()))
        [Constructed 1 CoreEagerDatabaseTable, DestroySettled 0 None, InstanceReset,
         InitializeSettled 1 None, InstanceSet 1, Forwarded 1 (GetOneByPrimaryKey (1::nat))]
   \<and> sound (fst (snd (run echo
        [Advance (optimizations Eager False), Advance (optimizations Eager False),
         Advance (optimizations Eager False), Issue (GetOneByPrimaryKey 1),
         Advance (optimizations Eager False), Resume (optimizations Eager False)]
        (Entered, started (optimizations None' False), 0))))
   \<and> run echo
        [Advance (optimizations Eager False), Advance (optimizations Eager False),
         Advance (optimizations Eager False), Issue (GetOneByPrimaryKey 1),
         Advance (optimizations Eager False), Resume (optimizations Eager False)]
        (Entered, started (optimizations None' False), 0)
      = (Returned (Inr ()),
         (started (optimizations None' False))
           \<lparr>target := Some 1,
            heap := [Table CoreDatabaseTable 7 ''t'' [''id''], Table CoreEagerDatabaseTable 7 ''t'' [''id'']],
            events := [Subscribed 0, Constructed 0 CoreDatabaseTable, InitializeSettled 0 None, InstanceSet 0,
                       Constructed 1 CoreEagerDatabaseTable, DestroySettled 0 None, InstanceReset,
                       InitializeSettled 1 None, InstanceSet 1, Forwarded 1 (GetOneByPrimaryKey 1)]\<rparr>,
         1)"
proof -
  have h: "sound (started (optimizations None' False) :: nat state)"
    by (simp add: started_def sound_initialize sound_constructor)
  have r: "run echo
        [Advance (optimizations Eager False), Advance (optimizations Eager False),
         Advance (optimizations Eager False), Issue (GetOneByPrimaryKey 1),
         Advance (optimizations Eager False), Resume (optimizations Eager False)]
        (Entered, started (optimizations None' False), 0)
      = (Returned (Inr ()),
         (started (optimizations None' False))
           \<lparr>target := Some 1,
            heap := [Table CoreDatabaseTable 7 ''t'' [''id''], Table CoreEagerDatabaseTable 7 ''t'' [''id'']],
            events := [Subscribed 0, Constructed 0 CoreDatabaseTable, InitializeSettled 0 None, InstanceSet 0,
                       Constructed 1 CoreEagerDatabaseTable, DestroySettled 0 None, InstanceReset,
                       InitializeSettled 1 None, InstanceSet 1, Forwarded 1 (GetOneByPrimaryKey 1)]\<rparr>,
         1)"
    by (simp add: run_def resume_def run_defs)
  have t: "target (started (optimizations None' False) :: nat state) = Some 0"
    by (simp add: run_defs)
  have "sound (fst (snd (run echo
        [Advance (optimizations Eager False), Advance (optimizations Eager False),
         Advance (optimizations Eager False), Issue (GetOneByPrimaryKey 1),
         Advance (optimizations Eager False), Resume (optimizations Eager False)]
        (Entered, started (optimizations None' False), 0))))"
    by (rule swap_window_protocol [OF h, THEN conjunct2, THEN conjunct2, THEN conjunct2, THEN conjunct1])
  then show ?thesis using h r t by (simp del: subseq_Cons2_iff add: subseq_Cons2' list_emb_Cons)
qed

text \<open>
  C4, as stated, fails: where \<^verbatim>\<open>initialize()\<close> of the new target rejects, the update
  started by the notification leaves the handle with no instance, and a table operation
  issued afterwards is left in the queue.
\<close>

theorem failed_initialize_counterexample:
  "target (started (optimizations None' False)) = Some 0
   \<and> initialize_settles (failing_initialize Eager False) 1 = Some (Rejection ''initialize'')
   \<and> target (environment_updated (failing_initialize Eager False) (started (optimizations None' False))) = None
   \<and> fst (getOneByPrimaryKey echo 1
        (environment_updated (failing_initialize Eager False) (started (optimizations None' False))) 0)
      = Queued"
  by (simp add: run_defs getOneByPrimaryKey_def)

text \<open>
  C4, amended. Failed initialize. If an update replaces an existing instance (its
  \<^verbatim>\<open>destroy()\<close> resolves) and \<^verbatim>\<open>initialize()\<close> of the new target rejects, then
  \<^verbatim>\<open>updateTarget\<close> rejects with that rejection and the proxy is left without an instance:
  the old one has been destroyed and the handle cleared, nothing is installed. A table
  operation issued afterwards is left in the queue, and so it is after any later
  environment update, which installs nothing (its callback waits on the handle as well).
\<close>

theorem failed_initialize_leaves_no_target:
  assumes "target s = Some old"
    and "destroy_settles env old = None"
    and "initialize_settles env (fst (createTarget env s)) = Some e"
  shows "fst (updateTarget env s) = Inl e
    \<and> target (snd (updateTarget env s)) = None
    \<and> events (snd (updateTarget env s))
        = events (snd (createTarget env s))
          @ [DestroySettled old None, InstanceReset, InitializeSettled (fst (createTarget env s)) (Some e)]
    \<and> fst (target_call tables call (snd (updateTarget env s)) db) = Queued
    \<and> target (environment_updated env' (snd (updateTarget env s))) = None
    \<and> fst (target_call tables call (environment_updated env' (snd (updateTarget env s))) db) = Queued"
proof -
  have t: "target (snd (updateTarget env s)) = None"
    using assms by (simp add: updateTarget_initialize_fails emit_def resetInstance_def)
  then have t': "target (environment_updated env' (snd (updateTarget env s))) = None"
    by (simp add: updated_waits)
  show ?thesis
    using assms t t'
    by (simp add: updateTarget_initialize_fails emit_def resetInstance_def target_call_def)
qed

theorem failed_initialize_leaves_no_target_witness:
  "target (started (optimizations None' False)) = Some 0
   \<and> fst (updateTarget (failing_initialize Eager False) (started (optimizations None' False)))
      = Inl (Rejection ''initialize'')
   \<and> target (snd (updateTarget (failing_initialize Eager False) (started (optimizations None' False)))) = None
   \<and> events (snd (updateTarget (failing_initialize Eager False) (started (optimizations None' False))))
      = [Subscribed 0, Constructed 0 CoreDatabaseTable, InitializeSettled 0 None, InstanceSet 0,
         Constructed 1 CoreEagerDatabaseTable, DestroySettled 0 None, InstanceReset,
         InitializeSettled 1 (Some (Rejection ''initialize''))]
   \<and> target (environment_updated (optimizations Lazy False)
        (snd (updateTarget (failing_initialize Eager False) (started (optimizations None' False))))) = None"
proof -
  let ?s = "started (optimizations None' False) :: nat state"
  let ?env = "failing_initialize Eager False"
  have h1: "target ?s = Some 0"
    and h2: "destroy_settles ?env 0 = None"
    and h3: "initialize_settles ?env (fst (createTarget ?env ?s)) = Some (Rejection ''initialize'')"
    by (simp_all add: run_defs)
  have ev: "events (snd (createTarget ?env ?s))
      = [Subscribed 0, Constructed 0 CoreDatabaseTable, InitializeSettled 0 None, InstanceSet 0,
         Constructed 1 CoreEagerDatabaseTable]"
    and n: "fst (createTarget ?env ?s) = 1"
    by (simp_all add: run_defs)
  show ?thesis
    using h1 ev n failed_initialize_leaves_no_target [OF h1 h2 h3, of echo "GetMany None None" 0 "optimizations Lazy False"]
    by simp
qed

subsection \<open>The decision\<close>

text \<open>
  C5. No spurious swap. If the handle holds the target an update builds from the
  configuration that is resolved now (for each strategy, with and without debug), then
  \<^verbatim>\<open>shouldUpdateTarget\<close> answers false and an environment update leaves the whole state
  as it is: the same instance stays in the handle and no object is built.
\<close>

theorem no_spurious_swap:
  assumes "target s = Some t"
    and "built_from (heap s) (getRuntimeConfig env s) t"
  shows "shouldUpdateTarget env s = (Some False, s) \<and> environment_updated env s = s"
  using assms
  by (simp add: callback_fixed environment_callback_def shouldUpdateTarget_def built_from_not_wanted)

theorem no_spurious_swap_witness:
  "target (started (optimizations Lazy True)) = Some 1
   \<and> heap (started (optimizations Lazy True)) = [Table CoreLazyDatabaseTable 7 ''t'' [''id''], DebugTable 0]
   \<and> shouldUpdateTarget (optimizations Lazy True) (started (optimizations Lazy True))
      = (Some False, started (optimizations Lazy True))
   \<and> environment_updated (optimizations Lazy True) (started (optimizations Lazy True))
      = started (optimizations Lazy True)"
proof -
  let ?s = "started (optimizations Lazy True) :: nat state"
  have t: "target ?s = Some 1"
    and h: "heap ?s = [Table CoreLazyDatabaseTable 7 ''t'' [''id''], DebugTable 0]"
    and b: "built_from (heap ?s) (getRuntimeConfig (optimizations Lazy True) ?s) 1"
    by (simp_all add: run_defs)
  show ?thesis
    using t h no_spurious_swap [OF t b] by simp
qed

text \<open>
  C6. Debug-on detection. If the handle holds the target built from a configuration
  without debug, and the configuration now resolves to the same strategy with debug,
  then \<^verbatim>\<open>shouldUpdateTarget\<close> answers true and the callback starts an update. The target
  this update builds is a new debug table around a new table of the constructor the
  registry has for that strategy; when the proxy has one observer registered (it has been
  initialized once) and the update has run
  (\<^verbatim>\<open>destroy()\<close> of the old and \<^verbatim>\<open>initialize()\<close> of the new target having resolved), this
  debug table is the instance of the handle.
\<close>

theorem debug_on_detection:
  assumes "target s = Some old"
    and "built_from (heap s) before old"
    and "\<not> debug before"
    and "getRuntimeConfig env s = before\<lparr>debug := True\<rparr>"
  shows "shouldUpdateTarget env s = (Some True, s)
    \<and> environment_callback env s = snd (updateTarget env s)
    \<and> fst (createTarget env s) = Suc (length (heap s))
    \<and> deref (heap (snd (createTarget env s))) (Suc (length (heap s))) = Some (DebugTable (length (heap s)))
    \<and> deref (heap (snd (createTarget env s))) (length (heap s))
        = Some (Table (targetConstructors (cachingStrategy before)) (database s) (tableName s) (primaryKeyColumns s))
    \<and> (observers s = [ob] \<and> destroy_settles env old = None \<and> initialize_settles env (Suc (length (heap s))) = None
        \<longrightarrow> target (environment_updated env s) = Some (Suc (length (heap s)))
          \<and> heap (environment_updated env s) = heap (snd (createTarget env s)))"
proof -
  let ?new = "fst (createTarget env s)"
  let ?s' = "snd (updateTarget env s)"
  have orig: "originalTarget (heap s) old = old"
    using assms(2,3) by (auto simp: built_from_def originalTarget_def split: option.splits table_object.splits)
  have should: "shouldUpdateTarget env s = (Some True, s)"
    using assms(1,4) orig by (simp add: shouldUpdateTarget_def update_wanted_def)
  then have cb: "environment_callback env s = ?s'"
    by (simp add: environment_callback_def)
  have new: "?new = Suc (length (heap s))"
    using assms(4) by (simp add: createTarget_new)
  have d1: "deref (heap (snd (createTarget env s))) (Suc (length (heap s))) = Some (DebugTable (length (heap s)))"
    and d2: "deref (heap (snd (createTarget env s))) (length (heap s))
        = Some (Table (targetConstructors (cachingStrategy before)) (database s) (tableName s) (primaryKeyColumns s))"
    using assms(4) by (simp_all add: createTarget_heap deref_def nth_append)
  have inst: "target (environment_updated env s) = Some (Suc (length (heap s)))
          \<and> heap (environment_updated env s) = heap (snd (createTarget env s))"
    if ok: "observers s = [ob]" "destroy_settles env old = None" "initialize_settles env (Suc (length (heap s))) = None"
  proof -
    have upd: "updateTarget env s =
       (Inr (), setInstance ?new (emit (InitializeSettled ?new None)
          (resetInstance (emit (DestroySettled old None) (snd (createTarget env s))))))"
      using assms(1) ok(2,3) new by (simp add: updateTarget_replaces)
    have tgt: "target ?s' = Some ?new" and hp: "heap ?s' = heap (snd (createTarget env s))"
      by (simp_all add: upd setInstance_def emit_def resetInstance_def)
    have "environment_updated env s = ?s'"
      using ok(1) cb by (simp add: environment_updated_def)
    then show ?thesis using tgt hp new by simp
  qed
  show ?thesis using should cb new d1 d2 inst by blast
qed

theorem debug_on_detection_witness:
  "target (started (optimizations Lazy False)) = Some 0
   \<and> heap (started (optimizations Lazy False)) = [Table CoreLazyDatabaseTable 7 ''t'' [''id'']]
   \<and> shouldUpdateTarget (optimizations Lazy True) (started (optimizations Lazy False))
      = (Some True, started (optimizations Lazy False))
   \<and> target (environment_updated (optimizations Lazy True) (started (optimizations Lazy False))) = Some 2
   \<and> heap (environment_updated (optimizations Lazy True) (started (optimizations Lazy False)))
      = [Table CoreLazyDatabaseTable 7 ''t'' [''id''], Table CoreLazyDatabaseTable 7 ''t'' [''id''], DebugTable 1]"
proof -
  let ?s = "started (optimizations Lazy False) :: nat state"
  let ?env = "optimizations Lazy True"
  have h1: "target ?s = Some 0"
    and h2: "built_from (heap ?s) \<lparr>cachingStrategy = Lazy, debug = False\<rparr> 0"
    and h3: "\<not> debug \<lparr>cachingStrategy = Lazy, debug = False\<rparr>"
    and h4: "getRuntimeConfig ?env ?s = \<lparr>cachingStrategy = Lazy, debug = False\<rparr>\<lparr>debug := True\<rparr>"
    and h5: "observers ?s = [0] \<and> destroy_settles ?env 0 = None \<and> initialize_settles ?env (Suc (length (heap ?s))) = None"
    and hp: "heap ?s = [Table CoreLazyDatabaseTable 7 ''t'' [''id'']]"
    and ct: "heap (snd (createTarget ?env ?s))
      = [Table CoreLazyDatabaseTable 7 ''t'' [''id''], Table CoreLazyDatabaseTable 7 ''t'' [''id''], DebugTable 1]"
    by (simp_all add: run_defs)
  show ?thesis
    using h1 h5 hp ct debug_on_detection [OF h1 h2 h3 h4, where ob = 0] by simp
qed

text \<open>
  C7. Debug-off gap. If the handle holds the target built from a configuration with
  debug, a debug table around a table of the strategy's constructor, and the
  configuration now resolves to the same strategy without debug, then
  \<^verbatim>\<open>shouldUpdateTarget\<close> answers false and an environment update changes nothing: the
  debug table stays the instance of the handle.
\<close>

theorem debug_off_gap:
  assumes "target s = Some t"
    and "built_from (heap s) before t"
    and "debug before"
    and "getRuntimeConfig env s = before\<lparr>debug := False\<rparr>"
  shows "shouldUpdateTarget env s = (Some False, s)
    \<and> environment_updated env s = s
    \<and> target (environment_updated env s) = Some t
    \<and> map_option constructor_of (deref (heap (environment_updated env s)) t) = Some CoreDebugDatabaseTable"
proof -
  have "\<not> update_wanted (heap s) (before\<lparr>debug := False\<rparr>) t"
    using assms(2,3)
    by (auto simp: built_from_def update_wanted_def originalTarget_def split: option.splits table_object.splits)
  then have "shouldUpdateTarget env s = (Some False, s) \<and> environment_updated env s = s"
    using assms(1,4) by (simp add: callback_fixed environment_callback_def shouldUpdateTarget_def)
  moreover have "map_option constructor_of (deref (heap s) t) = Some CoreDebugDatabaseTable"
    using assms(2,3) by (auto simp: built_from_def split: option.splits table_object.splits)
  ultimately show ?thesis using assms(1) by simp
qed

theorem debug_off_gap_witness:
  "target (started (optimizations Lazy True)) = Some 1
   \<and> getRuntimeConfig (optimizations Lazy False) (started (optimizations Lazy True))
      = \<lparr>cachingStrategy = Lazy, debug = False\<rparr>
   \<and> shouldUpdateTarget (optimizations Lazy False) (started (optimizations Lazy True))
      = (Some False, started (optimizations Lazy True))
   \<and> environment_updated (optimizations Lazy False) (started (optimizations Lazy True))
      = started (optimizations Lazy True)"
proof -
  let ?s = "started (optimizations Lazy True) :: nat state"
  let ?env = "optimizations Lazy False"
  have h1: "target ?s = Some 1"
    and h2: "built_from (heap ?s) \<lparr>cachingStrategy = Lazy, debug = True\<rparr> 1"
    and h3: "debug \<lparr>cachingStrategy = Lazy, debug = True\<rparr>"
    and h4: "getRuntimeConfig ?env ?s = \<lparr>cachingStrategy = Lazy, debug = True\<rparr>\<lparr>debug := False\<rparr>"
    by (simp_all add: run_defs)
  show ?thesis
    using h1 h4 debug_off_gap [OF h1 h2 h3 h4] by simp
qed

subsection \<open>The lifecycle of the proxy\<close>

text \<open>
  C8. Initialization protocol. \<^verbatim>\<open>initialize\<close> first registers the observer (the first
  new event is the subscription, and the proxy holds the observer), then runs
  \<^verbatim>\<open>updateTarget\<close> without asking \<^verbatim>\<open>shouldUpdateTarget\<close> (the second new event is
  always the construction of a table for the resolved strategy): whenever \<^verbatim>\<open>initialize\<close>
  resolves, whatever the handle held before, the handle holds one instance, a new object,
  built from the configuration resolved in that call. On a proxy that has no instance
  yet, \<^verbatim>\<open>initialize\<close> resolves as soon as \<^verbatim>\<open>initialize()\<close> of the new target does.
\<close>

theorem initialization_protocol:
  "environmentObserver (snd (initialize env s)) = Some (observer_count s)
   \<and> observers (snd (initialize env s)) = observers s @ [observer_count s]
   \<and> take (Suc (Suc (length (events s)))) (events (snd (initialize env s)))
       = events s @ [Subscribed (observer_count s),
                     Constructed (length (heap s)) (targetConstructors (cachingStrategy (getRuntimeConfig env s)))]
   \<and> (fst (initialize env s) = Inr ()
       \<longrightarrow> target (snd (initialize env s)) = Some (fst (createTarget env s))
         \<and> length (heap s) \<le> fst (createTarget env s)
         \<and> built_from (heap (snd (initialize env s))) (getRuntimeConfig env s) (fst (createTarget env s)))
   \<and> (target s = None \<and> initialize_settles env (fst (createTarget env s)) = None
       \<longrightarrow> fst (initialize env s) = Inr ())"
proof -
  define s1 where "s1 = (snd (subscribe s))\<lparr>environmentObserver := Some (observer_count s)\<rparr>"
  have init: "initialize env s = updateTarget env s1"
    by (simp add: initialize_def subscribe_def s1_def)
  have cfg: "getRuntimeConfig env s1 = getRuntimeConfig env s"
    by (simp add: s1_def subscribe_def emit_def getRuntimeConfig_def)
  have hp: "heap s1 = heap s" and tg: "target s1 = target s"
    and ev: "events s1 = events s @ [Subscribed (observer_count s)]"
    by (simp_all add: s1_def subscribe_def emit_def)
  have new: "fst (createTarget env s1) = fst (createTarget env s)"
    by (simp add: createTarget_new cfg hp)
  have a: "environmentObserver (snd (initialize env s)) = Some (observer_count s)"
    and b: "observers (snd (initialize env s)) = observers s @ [observer_count s]"
    by (simp_all add: init) (simp_all add: s1_def subscribe_def emit_def)
  have c: "take (Suc (Suc (length (events s)))) (events (snd (initialize env s)))
       = events s @ [Subscribed (observer_count s),
                     Constructed (length (heap s)) (targetConstructors (cachingStrategy (getRuntimeConfig env s)))]"
    using updateTarget_constructs_first [of s1 env] by (simp add: init ev cfg hp)
  have d: "target (snd (initialize env s)) = Some (fst (createTarget env s))
         \<and> length (heap s) \<le> fst (createTarget env s)
         \<and> built_from (heap (snd (initialize env s))) (getRuntimeConfig env s) (fst (createTarget env s))"
    if "fst (initialize env s) = Inr ()"
  proof -
    from that have r: "fst (updateTarget env s1) = Inr ()" by (simp add: init)
    have "built_from (heap (snd (createTarget env s1))) (getRuntimeConfig env s1) (fst (createTarget env s1))"
      by (rule createTarget_built)
    then have bf: "built_from (heap (snd (createTarget env s1))) (getRuntimeConfig env s) (fst (createTarget env s))"
      by (simp only: new cfg)
    have le: "length (heap s) \<le> fst (createTarget env s)"
      by (simp add: createTarget_new)
    from updateTarget_resolved [OF r]
    have "target (snd (updateTarget env s1)) = Some (fst (createTarget env s))"
      and "heap (snd (updateTarget env s1)) = heap (snd (createTarget env s1))"
      by (simp_all only: new)
    then show ?thesis
      using bf le by (simp add: init)
  qed
  have e: "fst (initialize env s) = Inr ()"
    if "target s = None \<and> initialize_settles env (fst (createTarget env s)) = None"
    using that by (simp add: init updateTarget_unfold tg new)
  show ?thesis using a b c d e by blast
qed

theorem initialization_protocol_witness:
  "fst (initialize (optimizations Eager True) (constructor no_keys 7 ''t'' None :: nat state)) = Inr ()
   \<and> target (snd (initialize (optimizations Eager True) (constructor no_keys 7 ''t'' None :: nat state))) = Some 1
   \<and> observers (snd (initialize (optimizations Eager True) (constructor no_keys 7 ''t'' None :: nat state))) = [0]
   \<and> heap (snd (initialize (optimizations Eager True) (constructor no_keys 7 ''t'' None :: nat state)))
      = [Table CoreEagerDatabaseTable 7 ''t'' [''id''], DebugTable 0]
   \<and> events (snd (initialize (optimizations Eager True) (constructor no_keys 7 ''t'' None :: nat state)))
      = [Subscribed 0, Constructed 0 CoreEagerDatabaseTable, Constructed 1 CoreDebugDatabaseTable,
         InitializeSettled 1 None, InstanceSet 1]"
proof -
  let ?s = "constructor no_keys 7 ''t'' None :: nat state"
  let ?env = "optimizations Eager True"
  have h: "target ?s = None \<and> initialize_settles ?env (fst (createTarget ?env ?s)) = None"
    and n: "fst (createTarget ?env ?s) = 1" and o: "observers ?s = []" "observer_count ?s = 0"
    by (simp_all add: run_defs)
  have hp: "heap (snd (initialize ?env ?s)) = [Table CoreEagerDatabaseTable 7 ''t'' [''id''], DebugTable 0]"
    and ev: "events (snd (initialize ?env ?s))
      = [Subscribed 0, Constructed 0 CoreEagerDatabaseTable, Constructed 1 CoreDebugDatabaseTable,
         InitializeSettled 1 None, InstanceSet 1]"
    by (simp_all add: run_defs)
  show ?thesis
    using h n o hp ev initialization_protocol [of ?env ?s] by simp
qed

text \<open>
  C9, as stated, fails in two ways. An update that is under way when \<^verbatim>\<open>destroy\<close> is
  called goes on: the callback has decided to update and \<^verbatim>\<open>updateTarget\<close> awaits
  \<^verbatim>\<open>destroy()\<close> of the old instance \<open>0\<close>; \<^verbatim>\<open>destroy\<close> of the proxy leaves no observer,
  and the update then replaces the instance by \<open>1\<close>. And after \<^verbatim>\<open>initialize\<close> has been
  called twice the proxy holds the second observer only: \<^verbatim>\<open>destroy\<close> leaves the first
  one registered, and a later environment update replaces the instance \<open>1\<close> by \<open>2\<close>.
\<close>

theorem destroy_stops_swaps_counterexample:
  "shouldUpdateTarget (optimizations Eager False) (started (optimizations None' False))
      = (Some True, started (optimizations None' False))
   \<and> fst (run echo [Advance (optimizations Eager False), Advance (optimizations Eager False)]
        (Entered, started (optimizations None' False), 0)) = AwaitingDestroy 0 1
   \<and> target (fst (snd (run echo [Advance (optimizations Eager False), Advance (optimizations Eager False)]
        (Entered, started (optimizations None' False), 0)))) = Some 0
   \<and> observers (snd (destroy (fst (snd (run echo
        [Advance (optimizations Eager False), Advance (optimizations Eager False)]
        (Entered, started (optimizations None' False), 0)))))) = []
   \<and> target (fst (snd (run echo [Advance (optimizations Eager False), Advance (optimizations Eager False)]
        (AwaitingDestroy 0 1,
         snd (destroy (fst (snd (run echo
           [Advance (optimizations Eager False), Advance (optimizations Eager False)]
           (Entered, started (optimizations None' False), 0))))), 0)))) = Some 1
   \<and> observers (snd (initialize (optimizations None' False) (started (optimizations None' False)))) = [0, 1]
   \<and> environmentObserver (snd (initialize (optimizations None' False) (started (optimizations None' False))))
      = Some 1
   \<and> target (snd (initialize (optimizations None' False) (started (optimizations None' False)))) = Some 1
   \<and> observers (snd (destroy (snd (initialize (optimizations None' False)
        (started (optimizations None' False)))))) = [0]
   \<and> target (environment_updated (optimizations Eager False)
        (snd (destroy (snd (initialize (optimizations None' False)
          (started (optimizations None' False))))))) = Some 2"
  by (simp add: run_def run_defs)

text \<open>
  C9, amended. Destroy stops swaps. Take a proxy that has registered no observer but
  the one it holds (\<^verbatim>\<open>initialize\<close> has been called at most once), and let no update and
  no callback of an environment update be under way when \<^verbatim>\<open>destroy\<close> is called: no
  execution of \<^verbatim>\<open>updateTarget\<close> is between two awaits, and no \<^verbatim>\<open>shouldUpdateTarget\<close>
  that the handle has resumed is left to go on. After \<^verbatim>\<open>destroy\<close> no observer of the proxy
  is registered, and whatever comes then (environment updates with any configuration,
  table operations, resumed operations going on) the handle keeps the instance it had
  when \<^verbatim>\<open>destroy\<close> was called and no target is built.
\<close>

theorem destroy_stops_swaps:
  assumes "set (observers s) \<subseteq> set_option (environmentObserver s)"
    and "calls_only (resumed s)"
  shows "fst (destroy s) = Inr ()
    \<and> observers (snd (destroy s)) = []
    \<and> fst (run tables later (Returned r, snd (destroy s), db)) = Returned r
    \<and> observers (fst (snd (run tables later (Returned r, snd (destroy s), db)))) = []
    \<and> target (fst (snd (run tables later (Returned r, snd (destroy s), db)))) = target s
    \<and> heap (fst (snd (run tables later (Returned r, snd (destroy s), db)))) = heap s"
proof -
  have o: "observers (snd (destroy s)) = []"
  proof (cases "environmentObserver s")
    case None
    then show ?thesis using assms(1) by (simp add: destroy_def)
  next
    case (Some ob)
    then have "set (removeAll ob (observers s)) = {}" using assms(1) by auto
    then have "removeAll ob (observers s) = []" by (simp only: set_empty)
    then show ?thesis using Some by (simp add: destroy_def off_def emit_def)
  qed
  have c: "calls_only (resumed (snd (destroy s)))"
    and t: "target (snd (destroy s)) = target s" and h: "heap (snd (destroy s)) = heap s"
    and f: "fst (destroy s) = Inr ()"
    using assms(2) by (simp_all add: destroy_def off_def emit_def split: option.splits)
  show ?thesis using quiet_run [OF o c, of tables later r db] o t h f by simp
qed

theorem destroy_stops_swaps_witness:
  "set (observers (started (optimizations None' False)))
      \<subseteq> set_option (environmentObserver (started (optimizations None' False)))
   \<and> calls_only (resumed (started (optimizations None' False)))
   \<and> target (started (optimizations None' False)) = Some 0
   \<and> observers (snd (destroy (started (optimizations None' False)))) = []
   \<and> target (fst (snd (run echo
        [Notify (optimizations Eager True), Issue (GetMany None None), Notify (optimizations Lazy False)]
        (Returned (Inr ()), snd (destroy (started (optimizations None' False))), 0)))) = Some 0
   \<and> heap (fst (snd (run echo
        [Notify (optimizations Eager True), Issue (GetMany None None), Notify (optimizations Lazy False)]
        (Returned (Inr ()), snd (destroy (started (optimizations None' False))), 0))))
      = [Table CoreDatabaseTable 7 ''t'' [''id'']]"
proof -
  let ?s = "started (optimizations None' False) :: nat state"
  have h1: "set (observers ?s) \<subseteq> set_option (environmentObserver ?s)"
    and h2: "calls_only (resumed ?s)"
    and t: "target ?s = Some 0"
    and hp: "heap ?s = [Table CoreDatabaseTable 7 ''t'' [''id'']]"
    by (simp_all add: run_defs calls_only_def)
  show ?thesis
    using h1 h2 t hp destroy_stops_swaps [OF h1 h2,
        of echo "[Notify (optimizations Eager True), Issue (GetMany None None), Notify (optimizations Lazy False)]"
           "Inr ()" 0]
    by simp
qed

text \<open>
  C10, as stated, fails: \<^verbatim>\<open>destroy\<close> of a proxy with an installed instance calls
  \<^verbatim>\<open>destroy()\<close> on no table, and the proxy still answers afterwards.
\<close>

theorem destroy_ownership_counterexample:
  "target (started (optimizations Eager False)) = Some 0
   \<and> fst (destroy (started (optimizations Eager False))) = Inr ()
   \<and> events (snd (destroy (started (optimizations Eager False))))
      = [Subscribed 0, Constructed 0 CoreEagerDatabaseTable, InitializeSettled 0 None, InstanceSet 0,
         Unsubscribed 0]
   \<and> DestroySettled 0 None \<notin> set (events (snd (destroy (started (optimizations Eager False)))))
   \<and> target (snd (destroy (started (optimizations Eager False)))) = Some 0
   \<and> fst (getMany echo None None (snd (destroy (started (optimizations Eager False)))) 0) = Settled (Inr 0)"
  by (simp add: run_defs getMany_def)

text \<open>
  C10, amended. \<^verbatim>\<open>destroy\<close> of a proxy that holds its observer unsubscribes that
  observer from the environment updates and resolves. The handle is left as it is: the
  instance stays installed and the proxy stays usable, a table operation issued
  afterwards being forwarded to the instance with the same answer as before.
\<close>

theorem destroy_only_unsubscribes:
  assumes "environmentObserver s = Some ob"
  shows "fst (destroy s) = Inr ()
    \<and> ob \<notin> set (observers (snd (destroy s)))
    \<and> target (snd (destroy s)) = target s
    \<and> heap (snd (destroy s)) = heap s
    \<and> fst (target_call tables call (snd (destroy s)) db) = fst (target_call tables call s db)
    \<and> snd (snd (target_call tables call (snd (destroy s)) db)) = snd (snd (target_call tables call s db))"
  using assms by (simp add: destroy_def off_def emit_def target_call_def split: option.splits)

theorem destroy_only_unsubscribes_witness:
  "environmentObserver (started (optimizations Eager False)) = Some 0
   \<and> observers (snd (destroy (started (optimizations Eager False)))) = []
   \<and> target (snd (destroy (started (optimizations Eager False)))) = Some 0
   \<and> fst (target_call echo (Count None) (snd (destroy (started (optimizations Eager False)))) 0)
      = Settled (Inr 0)"
proof -
  let ?s = "started (optimizations Eager False) :: nat state"
  have h: "environmentObserver ?s = Some 0"
    and o: "observers (snd (destroy ?s)) = []"
    and t: "target ?s = Some 0"
    and c: "fst (target_call echo (Count None) ?s 0) = Settled (Inr 0)"
    by (simp_all add: run_defs)
  show ?thesis
    using h o t c destroy_only_unsubscribes [OF h, of echo "Count None" 0] by simp
qed

end
